theory Spec2Isabelle
  imports Complex_Main
begin

section \<open>Data model of \<open>ha/transducer.py\<close>\<close>

text \<open>
  A two-dimensional \<open>torch\<close> tensor carries its shape with it (a tensor of shape
  \<open>(0, K)\<close> still has a definite \<open>K\<close>), so the score matrices are records of the
  shape and the rows. Scores are real numbers: the development is about exact real
  arithmetic, not about floating point.
\<close>

record tensor2 =
  nrows :: nat
  ncols :: nat
  vals :: "real list list"

definition wf_tensor2 :: "tensor2 \<Rightarrow> bool" where
  "wf_tensor2 m \<longleftrightarrow>
     length (vals m) = nrows m \<and> list_all (\<lambda>r. length r = ncols m) (vals m)"

text \<open>
  What the calls of the source can raise: the broadcast addition of two tensors whose
  last dimensions do not fit (a \<open>RuntimeError\<close> of torch), an index outside a dimension
  (\<open>IndexError\<close>), an index tensor that \<open>gather\<close> refuses, and an assignment of a
  row of the wrong length.
\<close>

datatype error = BroadcastError | IndexError | GatherError | ShapeError

definition bindE :: "error + 'a \<Rightarrow> ('a \<Rightarrow> error + 'b) \<Rightarrow> error + 'b" where
  "bindE m f = (case m of Inl e \<Rightarrow> Inl e | Inr x \<Rightarrow> f x)"

text \<open>A \<open>for\<close> loop whose body may raise: the first error ends the loop.\<close>

fun foldE :: "('a \<Rightarrow> 's \<Rightarrow> error + 's) \<Rightarrow> 'a list \<Rightarrow> 's \<Rightarrow> error + 's" where
  "foldE f [] s = Inr s"
| "foldE f (x # xs) s = (case f x s of Inl e \<Rightarrow> Inl e | Inr s' \<Rightarrow> foldE f xs s')"

text \<open>
  Indexing one dimension of size \<open>n\<close> with a Python integer (or a zero-dimensional
  integer tensor): negative indices count from the end, anything else outside the
  dimension raises.
\<close>

definition py_index :: "nat \<Rightarrow> int \<Rightarrow> error + nat" where
  "py_index n i =
     (if 0 \<le> i \<and> i < int n then Inr (nat i)
      else if - int n \<le> i \<and> i < 0 then Inr (nat (i + int n))
      else Inl IndexError)"

text \<open>\<open>targets[u]\<close> for a loop index \<open>u \<ge> 0\<close>.\<close>

definition target_at :: "int list \<Rightarrow> nat \<Rightarrow> error + int" where
  "target_at targets u = (if u < length targets then Inr (targets ! u) else Inl IndexError)"

subsection \<open>The joint lattice\<close>

definition softmax :: "real list \<Rightarrow> real list" where
  "softmax xs = map (\<lambda>x. exp x / sum_list (map exp xs)) xs"

definition log_softmax :: "real list \<Rightarrow> real list" where
  "log_softmax xs = map (\<lambda>x. x - ln (sum_list (map exp xs))) xs"

text \<open>
  \<open>transcription_probs[:, None, :] + prediction_probs[None, :, :]\<close>: the last
  dimensions must be equal, or one of them must be 1 (it is then stretched).
\<close>

definition broadcastable :: "nat \<Rightarrow> nat \<Rightarrow> bool" where
  "broadcastable k1 k2 \<longleftrightarrow> k1 = k2 \<or> k1 = 1 \<or> k2 = 1"

definition broadcast_dim :: "nat \<Rightarrow> nat \<Rightarrow> nat" where
  "broadcast_dim k1 k2 = (if k1 = 1 then k2 else k1)"

definition broadcast_add :: "real list \<Rightarrow> real list \<Rightarrow> real list" where
  "broadcast_add f g =
     (if length f = length g then map2 (+) f g
      else if length f = 1 then map (\<lambda>y. hd f + y) g
      else map (\<lambda>x. x + hd g) f)"

definition lattice_sum :: "tensor2 \<Rightarrow> tensor2 \<Rightarrow> real list list list" where
  "lattice_sum tp pp = map (\<lambda>f. map (\<lambda>g. broadcast_add f g) (vals pp)) (vals tp)"

definition prob_lattice :: "tensor2 \<Rightarrow> tensor2 \<Rightarrow> real list list list" where
  "prob_lattice tp pp = map (map softmax) (lattice_sum tp pp)"

definition log_lattice :: "tensor2 \<Rightarrow> tensor2 \<Rightarrow> real list list list" where
  "log_lattice tp pp = map (map log_softmax) (lattice_sum tp pp)"

text \<open>Source lines 18 and 56: the sum, then \<open>softmax(dim=-1)\<close>.\<close>

definition joint_probs :: "tensor2 \<Rightarrow> tensor2 \<Rightarrow> error + real list list list" where
  "joint_probs tp pp =
     (if broadcastable (ncols tp) (ncols pp) then Inr (prob_lattice tp pp)
      else Inl BroadcastError)"

text \<open>Source lines 88 and 120: the sum, then \<open>log_softmax(dim=-1)\<close>.\<close>

definition joint_log :: "tensor2 \<Rightarrow> tensor2 \<Rightarrow> error + real list list list" where
  "joint_log tp pp =
     (if broadcastable (ncols tp) (ncols pp) then Inr (log_lattice tp pp)
      else Inl BroadcastError)"

text \<open>
  \<open>joint[t, u, k]\<close> inside the loops: \<open>t\<close> and \<open>u\<close> are loop indices inside the
  lattice, \<open>k\<close> is an integer that is checked against the last dimension \<open>K\<close>.
\<close>

definition getitem3 :: "real list list list \<Rightarrow> nat \<Rightarrow> nat \<Rightarrow> nat \<Rightarrow> int \<Rightarrow> error + real" where
  "getitem3 J K t u k = bindE (py_index K k) (\<lambda>k'. Inr (J ! t ! u ! k'))"

subsection \<open>The alpha table\<close>

definition new_full :: "nat \<Rightarrow> nat \<Rightarrow> real \<Rightarrow> real list list" where
  "new_full T U v = replicate T (replicate U v)"

definition new_zeros :: "nat \<Rightarrow> nat \<Rightarrow> real list list" where
  "new_zeros T U = new_full T U 0"

definition get2 :: "real list list \<Rightarrow> nat \<Rightarrow> nat \<Rightarrow> real" where
  "get2 a t u = a ! t ! u"

definition set2 :: "real list list \<Rightarrow> nat \<Rightarrow> nat \<Rightarrow> real \<Rightarrow> real list list" where
  "set2 a t u v = a[t := (a ! t)[u := v]]"

text \<open>\<open>alpha[t, u] = v\<close> at constant indices, where the table may be empty.\<close>

definition setitem2 :: "real list list \<Rightarrow> nat \<Rightarrow> nat \<Rightarrow> real \<Rightarrow> error + real list list" where
  "setitem2 a t u v =
     (if t < length a \<and> u < length (a ! t) then Inr (set2 a t u v) else Inl IndexError)"

section \<open>\<open>transducer_forward_score1\<close>: the nested loops\<close>

text \<open>The body of the loop over \<open>u\<close> for \<open>t = 0\<close> (source lines 23 to 25).\<close>

definition first_row_step ::
  "real list list list \<Rightarrow> nat \<Rightarrow> int list \<Rightarrow> nat \<Rightarrow> real list list \<Rightarrow> error + real list list" where
  "first_row_step J K targets u alpha =
     bindE (target_at targets (u - 1)) (\<lambda>y.
     bindE (getitem3 J K 0 (u - 1) y) (\<lambda>prev_symbol_prob.
       Inr (set2 alpha 0 u (get2 alpha 0 (u - 1) * prev_symbol_prob))))"

text \<open>The body of the inner loop over \<open>u\<close> for \<open>t \<ge> 1\<close> (source lines 34 to 37).\<close>

definition inner_step ::
  "real list list list \<Rightarrow> nat \<Rightarrow> int list \<Rightarrow> nat \<Rightarrow> nat \<Rightarrow> real list list \<Rightarrow> error + real list list" where
  "inner_step J K targets t u alpha =
     bindE (getitem3 J K (t - 1) u 0) (\<lambda>prev_blank_prob.
     bindE (target_at targets (u - 1)) (\<lambda>y.
     bindE (getitem3 J K t (u - 1) y) (\<lambda>prev_symbol_prob.
       Inr (set2 alpha t u
         (get2 alpha (t - 1) u * prev_blank_prob + get2 alpha t (u - 1) * prev_symbol_prob)))))"

text \<open>The body of the loop over \<open>t\<close> (source lines 29 to 37).\<close>

definition outer_step ::
  "real list list list \<Rightarrow> nat \<Rightarrow> nat \<Rightarrow> int list \<Rightarrow> nat \<Rightarrow> real list list \<Rightarrow> error + real list list" where
  "outer_step J K U targets t alpha =
     bindE (getitem3 J K (t - 1) 0 0) (\<lambda>prev_blank_prob.
     foldE (inner_step J K targets t) [1..<U]
       (set2 alpha t 0 (get2 alpha (t - 1) 0 * prev_blank_prob)))"

text \<open>The alpha table as the loops leave it (source lines 20 to 39).\<close>

definition score1_fill ::
  "real list list list \<Rightarrow> nat \<Rightarrow> nat \<Rightarrow> nat \<Rightarrow> int list \<Rightarrow> error + real list list" where
  "score1_fill J K T U targets =
     bindE (setitem2 (new_zeros T U) 0 0 1) (\<lambda>alpha0.
     bindE (foldE (first_row_step J K targets) [1..<U] alpha0) (\<lambda>alpha1.
       foldE (outer_step J K U targets) [1..<T] alpha1))"

definition transducer_forward_alpha1 :: "tensor2 \<Rightarrow> tensor2 \<Rightarrow> int list \<Rightarrow> error + real list list" where
  "transducer_forward_alpha1 tp pp targets =
     bindE (joint_probs tp pp) (\<lambda>J.
       score1_fill J (broadcast_dim (ncols tp) (ncols pp)) (nrows tp) (nrows pp) targets)"

definition transducer_forward_score1 :: "tensor2 \<Rightarrow> tensor2 \<Rightarrow> int list \<Rightarrow> error + real" where
  "transducer_forward_score1 tp pp targets =
     (let T = nrows tp; U = nrows pp; K = broadcast_dim (ncols tp) (ncols pp) in
      bindE (joint_probs tp pp) (\<lambda>J.
      bindE (score1_fill J K T U targets) (\<lambda>alpha.
      bindE (getitem3 J K (T - 1) (U - 1) 0) (\<lambda>final_blank.
        Inr (get2 alpha (T - 1) (U - 1) * final_blank)))))"

section \<open>The vectorised variants\<close>

subsection \<open>Tensor operations\<close>

text \<open>\<open>torch.cumprod\<close> and \<open>torch.cumsum\<close> along the only dimension.\<close>

definition cumprod :: "real list \<Rightarrow> real list" where
  "cumprod xs = map (\<lambda>u. prod_list (take (Suc u) xs)) [0..<length xs]"

definition cumsum :: "real list \<Rightarrow> real list" where
  "cumsum xs = map (\<lambda>u. sum_list (take (Suc u) xs)) [0..<length xs]"

text \<open>
  \<open>rows.gather(-1, targets[:, None])[:, 0]\<close> for a \<open>(U, K)\<close> slice \<open>rows\<close> of the
  lattice: entry \<open>i\<close> is \<open>rows[i, targets[i]]\<close>. \<open>gather\<close> refuses an index tensor
  longer than \<open>rows\<close> and any index outside \<open>[0, K)\<close>; negative indices do not wrap
  here.
\<close>

definition gather_labels :: "nat \<Rightarrow> real list list \<Rightarrow> int list \<Rightarrow> error + real list" where
  "gather_labels K rows targets =
     (if length rows < length targets then Inl GatherError
      else if list_all (\<lambda>y. 0 \<le> y \<and> y < int K) targets
      then Inr (map2 (\<lambda>r y. r ! nat y) rows targets)
      else Inl GatherError)"

text \<open>
  \<open>joint[t, :]\<close> at the constant \<open>t = 0\<close>, where the first dimension may be empty;
  \<open>joint[t, :, 0]\<close> and \<open>joint[:, u, k]\<close>.
\<close>

definition lattice_row :: "real list list list \<Rightarrow> nat \<Rightarrow> nat \<Rightarrow> error + real list list" where
  "lattice_row J T t = (if t < T then Inr (J ! t) else Inl IndexError)"

definition lattice_row_blank :: "real list list list \<Rightarrow> nat \<Rightarrow> nat \<Rightarrow> error + real list" where
  "lattice_row_blank J K t = bindE (py_index K 0) (\<lambda>k. Inr (map (\<lambda>r. r ! k) (J ! t)))"

definition lattice_col :: "real list list list \<Rightarrow> nat \<Rightarrow> nat \<Rightarrow> nat \<Rightarrow> int \<Rightarrow> error + real list" where
  "lattice_col J U K u k =
     (if u < U then bindE (py_index K k) (\<lambda>k'. Inr (map (\<lambda>row. row ! u ! k') J))
      else Inl IndexError)"

text \<open>
  \<open>alpha[t, :] = v\<close> and \<open>log_alpha[:, u] = v\<close>: the value must have the length of
  the slice, or length 1 (it is then stretched).
\<close>

definition setrow :: "real list list \<Rightarrow> nat \<Rightarrow> real list \<Rightarrow> error + real list list" where
  "setrow a t v =
     (if length v = length (a ! t) then Inr (a[t := v])
      else if length v = 1 then Inr (a[t := replicate (length (a ! t)) (hd v)])
      else Inl ShapeError)"

definition getcol :: "real list list \<Rightarrow> nat \<Rightarrow> real list" where
  "getcol a u = map (\<lambda>row. row ! u) a"

definition setcol :: "real list list \<Rightarrow> nat \<Rightarrow> real list \<Rightarrow> error + real list list" where
  "setcol a u v =
     (if length v = length a then Inr (map2 (\<lambda>row x. row[u := x]) a v)
      else if length v = 1 then Inr (map (\<lambda>row. row[u := hd v]) a)
      else Inl ShapeError)"

text \<open>
  \<open>torch.finfo(torch.float).min\<close>, the value the log-domain table is created with.
\<close>

definition float_min :: real where
  "float_min = - (2 - 1 / 2 ^ 23) * 2 ^ 127"

subsection \<open>The scan helpers\<close>

text \<open>
  Modelled from the spec: \<open>scanrec\<close> of \<open>ha/scan.py\<close>, which \<open>transducer.py\<close>
  imports and which is not among the source files. Section 4.3 of the specification
  describes it as the unrolled linear recurrence
  \<open>result[u] = from_left \<cdot> prod(from_bot[0..u]) + sum over k of the cross terms\<close>: the
  mass carried in from the left at position 0 advances through all bottom transitions up to
  \<open>u\<close>, and the mass that enters from the left at a later position \<open>k \<le> u\<close>
  advances through the bottom transitions \<open>k + 1\<close> to \<open>u\<close>. The source calls it as
  \<open>scanrec(from_bot, from_left)\<close> with two sequences of the same length.
\<close>

definition scanrec :: "real list \<Rightarrow> real list \<Rightarrow> real list" where
  "scanrec from_bot from_left =
     map (\<lambda>u. from_left ! 0 * prod_list (take (Suc u) from_bot) +
              (\<Sum>k\<leftarrow>[1..<Suc u]. from_left ! k * prod_list (drop (Suc k) (take (Suc u) from_bot))))
       [0..<length from_bot]"

text \<open>
  Modelled from the spec: \<open>scanrec_log\<close> of \<open>ha/scan.py\<close>, not among the source
  files. Section 4.3: the log-domain version of the same unrolled recurrence, with
  cumulative sums in place of cumulative products and a log-sum-exp in place of the sum.
\<close>

definition scanrec_log :: "real list \<Rightarrow> real list \<Rightarrow> real list" where
  "scanrec_log from_bot from_left =
     map (\<lambda>u. ln (exp (from_left ! 0 + sum_list (take (Suc u) from_bot)) +
                  (\<Sum>k\<leftarrow>[1..<Suc u]. exp (from_left ! k + sum_list (drop (Suc k) (take (Suc u) from_bot))))))
       [0..<length from_bot]"

subsection \<open>\<open>transducer_forward_score2\<close>: probabilities, row by row\<close>

text \<open>The body of the loop over \<open>t\<close> (source lines 66 to 71).\<close>

definition score2_step ::
  "real list list list \<Rightarrow> nat \<Rightarrow> int list \<Rightarrow> nat \<Rightarrow> real list list \<Rightarrow> error + real list list" where
  "score2_step J K targets t alpha =
     bindE (lattice_row_blank J K (t - 1)) (\<lambda>blank.
     let from_left = map2 (*) (alpha ! (t - 1)) blank in
     bindE (gather_labels K (J ! t) targets) (\<lambda>gathered.
     let from_bot = 1 # butlast gathered in
       setrow alpha t (scanrec from_bot from_left)))"

text \<open>
  The alpha table as the loop leaves it (source lines 58 to 71), and the function.
  The last line reads \<open>alpha[T-1, U-1]\<close>, which needs \<open>U \<ge> 1\<close>.
\<close>

definition score2_fill ::
  "real list list list \<Rightarrow> nat \<Rightarrow> nat \<Rightarrow> nat \<Rightarrow> int list \<Rightarrow> error + real list list" where
  "score2_fill J K T U targets =
     (let alpha = new_zeros T U in
      bindE (lattice_row J T 0) (\<lambda>row0.
      bindE (gather_labels K row0 targets) (\<lambda>gathered.
      let from_bot = 1 # butlast gathered in
      bindE (setrow alpha 0 (cumprod from_bot)) (\<lambda>alpha0.
        foldE (score2_step J K targets) [1..<T] alpha0))))"

definition transducer_forward_score2 :: "tensor2 \<Rightarrow> tensor2 \<Rightarrow> int list \<Rightarrow> error + real" where
  "transducer_forward_score2 tp pp targets =
     (let T = nrows tp; U = nrows pp; K = broadcast_dim (ncols tp) (ncols pp) in
      bindE (joint_probs tp pp) (\<lambda>J.
      bindE (score2_fill J K T U targets) (\<lambda>alpha.
      if U = 0 then Inl IndexError
      else bindE (getitem3 J K (T - 1) (U - 1) 0) (\<lambda>final_blank.
        Inr (get2 alpha (T - 1) (U - 1) * final_blank)))))"

subsection \<open>\<open>transducer_forward_score3\<close>: log domain, row by row\<close>

text \<open>The body of the loop over \<open>t\<close> (source lines 98 to 103).\<close>

definition score3_step ::
  "real list list list \<Rightarrow> nat \<Rightarrow> int list \<Rightarrow> nat \<Rightarrow> real list list \<Rightarrow> error + real list list" where
  "score3_step J K targets t log_alpha =
     bindE (lattice_row_blank J K (t - 1)) (\<lambda>blank.
     let from_left = map2 (+) (log_alpha ! (t - 1)) blank in
     bindE (gather_labels K (J ! t) targets) (\<lambda>gathered.
     let from_bot = 0 # butlast gathered in
       setrow log_alpha t (scanrec_log from_bot from_left)))"

text \<open>
  The table as the loop leaves it (source lines 90 to 103), and the function.
\<close>

definition score3_fill ::
  "real list list list \<Rightarrow> nat \<Rightarrow> nat \<Rightarrow> nat \<Rightarrow> int list \<Rightarrow> error + real list list" where
  "score3_fill J K T U targets =
     (let log_alpha = new_full T U float_min in
      bindE (lattice_row J T 0) (\<lambda>row0.
      bindE (gather_labels K row0 targets) (\<lambda>gathered.
      let from_bot = 0 # butlast gathered in
      bindE (setrow log_alpha 0 (cumsum from_bot)) (\<lambda>log_alpha0.
        foldE (score3_step J K targets) [1..<T] log_alpha0))))"

definition transducer_forward_score3 :: "tensor2 \<Rightarrow> tensor2 \<Rightarrow> int list \<Rightarrow> error + real" where
  "transducer_forward_score3 tp pp targets =
     (let T = nrows tp; U = nrows pp; K = broadcast_dim (ncols tp) (ncols pp) in
      bindE (joint_log tp pp) (\<lambda>J.
      bindE (score3_fill J K T U targets) (\<lambda>log_alpha.
      if U = 0 then Inl IndexError
      else bindE (getitem3 J K (T - 1) (U - 1) 0) (\<lambda>final_blank.
        Inr (get2 log_alpha (T - 1) (U - 1) + final_blank)))))"

subsection \<open>\<open>transducer_forward_score3_transposed\<close>: log domain, column by column\<close>

text \<open>
  The body of the loop over \<open>u\<close> (source lines 130 to 135). Here \<open>targets[u-1]\<close> is an
  integer index again, as in the nested loops.
\<close>

definition score3_transposed_step ::
  "real list list list \<Rightarrow> nat \<Rightarrow> nat \<Rightarrow> int list \<Rightarrow> nat \<Rightarrow> real list list \<Rightarrow> error + real list list" where
  "score3_transposed_step J U K targets u log_alpha =
     bindE (target_at targets (u - 1)) (\<lambda>y.
     bindE (lattice_col J U K (u - 1) y) (\<lambda>symbol.
     let from_bot = map2 (+) (getcol log_alpha (u - 1)) symbol in
     bindE (lattice_col J U K u 0) (\<lambda>blank.
     let from_left = 0 # butlast blank in
       setcol log_alpha u (scanrec_log from_left from_bot))))"

text \<open>
  The table as the loop leaves it (source lines 122 to 135), and the function. The last
  line reads \<open>log_alpha[T-1, U-1]\<close>, which needs \<open>T \<ge> 1\<close>.
\<close>

definition score3_transposed_fill ::
  "real list list list \<Rightarrow> nat \<Rightarrow> nat \<Rightarrow> nat \<Rightarrow> int list \<Rightarrow> error + real list list" where
  "score3_transposed_fill J K T U targets =
     (let log_alpha = new_full T U float_min in
      bindE (lattice_col J U K 0 0) (\<lambda>blank.
      let from_left = 0 # butlast blank in
      bindE (setcol log_alpha 0 (cumsum from_left)) (\<lambda>log_alpha0.
        foldE (score3_transposed_step J U K targets) [1..<U] log_alpha0)))"

definition transducer_forward_score3_transposed :: "tensor2 \<Rightarrow> tensor2 \<Rightarrow> int list \<Rightarrow> error + real" where
  "transducer_forward_score3_transposed tp pp targets =
     (let T = nrows tp; U = nrows pp; K = broadcast_dim (ncols tp) (ncols pp) in
      bindE (joint_log tp pp) (\<lambda>J.
      bindE (score3_transposed_fill J K T U targets) (\<lambda>log_alpha.
      if T = 0 then Inl IndexError
      else bindE (getitem3 J K (T - 1) (U - 1) 0) (\<lambda>final_blank.
        Inr (get2 log_alpha (T - 1) (U - 1) + final_blank)))))"

section \<open>The recurrence of the specification\<close>

text \<open>
  The forward variable as the specification defines it: \<open>b t u\<close> is the probability
  of blank at lattice cell \<open>(t, u)\<close>, \<open>s t u\<close> the probability, at cell \<open>(t, u)\<close>,
  of the label consumed when the column advances from \<open>u\<close> to \<open>u + 1\<close>.
\<close>

fun alpha_rec :: "(nat \<Rightarrow> nat \<Rightarrow> real) \<Rightarrow> (nat \<Rightarrow> nat \<Rightarrow> real) \<Rightarrow> nat \<Rightarrow> nat \<Rightarrow> real" where
  "alpha_rec b s 0 0 = 1"
| "alpha_rec b s 0 (Suc u) = alpha_rec b s 0 u * s 0 u"
| "alpha_rec b s (Suc t) 0 = alpha_rec b s t 0 * b t 0"
| "alpha_rec b s (Suc t) (Suc u) =
     alpha_rec b s t (Suc u) * b t (Suc u) + alpha_rec b s (Suc t) u * s (Suc t) u"

text \<open>
  The total mass that the recurrence assigns to the inputs: the forward variable at the
  last cell times the final blank probability, with the probabilities of the softmax
  lattice.
\<close>

definition forward_mass :: "tensor2 \<Rightarrow> tensor2 \<Rightarrow> int list \<Rightarrow> real" where
  "forward_mass tp pp targets =
     alpha_rec (\<lambda>t u. prob_lattice tp pp ! t ! u ! 0)
       (\<lambda>t u. prob_lattice tp pp ! t ! u ! nat (targets ! u)) (nrows tp - 1) (nrows pp - 1) *
     prob_lattice tp pp ! (nrows tp - 1) ! (nrows pp - 1) ! 0"

text \<open>
  The same mass on the layout that the source documents for \<open>targets\<close>
  (\<open>(U,)\<close>, "first symbol is blank (0)", as \<open>_test_simple\<close> passes it): the
  array is the blank prefix followed by the \<open>U - 1\<close> labels of the specification, so
  the label consumed when the column advances from \<open>u\<close> to \<open>u + 1\<close> is
  \<open>targets[u + 1]\<close>, the \<open>(u + 1)\<close>-th label [Graves12].
\<close>

definition spec_forward_mass :: "tensor2 \<Rightarrow> tensor2 \<Rightarrow> int list \<Rightarrow> real" where
  "spec_forward_mass tp pp targets =
     alpha_rec (\<lambda>t u. prob_lattice tp pp ! t ! u ! 0)
       (\<lambda>t u. prob_lattice tp pp ! t ! u ! nat (targets ! Suc u)) (nrows tp - 1) (nrows pp - 1) *
     prob_lattice tp pp ! (nrows tp - 1) ! (nrows pp - 1) ! 0"

text \<open>
  The sum of the forward variable over the anti-diagonal \<open>t + u = n\<close>.
\<close>

definition diag_sum :: "(nat \<Rightarrow> nat \<Rightarrow> real) \<Rightarrow> (nat \<Rightarrow> nat \<Rightarrow> real) \<Rightarrow> nat \<Rightarrow> real" where
  "diag_sum b s n = (\<Sum>i\<le>n. alpha_rec b s i (n - i))"

subsection \<open>Loop invariants\<close>

text \<open>
  A \<open>T \<times> U\<close> table whose rows before \<open>n\<close> are final and whose row \<open>n\<close> is final
  before column \<open>m\<close>; the same for a table of logarithms, by rows and by columns.
\<close>

definition table_upto ::
  "(nat \<Rightarrow> nat \<Rightarrow> real) \<Rightarrow> nat \<Rightarrow> nat \<Rightarrow> nat \<Rightarrow> nat \<Rightarrow> real list list \<Rightarrow> bool" where
  "table_upto al T U n m a \<longleftrightarrow>
     length a = T \<and> (\<forall>t<T. length (a ! t) = U) \<and>
     (\<forall>t<n. \<forall>u<U. a ! t ! u = al t u) \<and> (\<forall>u<m. a ! n ! u = al n u)"

definition log_table_upto ::
  "(nat \<Rightarrow> nat \<Rightarrow> real) \<Rightarrow> nat \<Rightarrow> nat \<Rightarrow> nat \<Rightarrow> real list list \<Rightarrow> bool" where
  "log_table_upto al T U n a \<longleftrightarrow>
     length a = T \<and> (\<forall>t<T. length (a ! t) = U) \<and> (\<forall>t<n. \<forall>u<U. exp (a ! t ! u) = al t u)"

definition log_columns_upto ::
  "(nat \<Rightarrow> nat \<Rightarrow> real) \<Rightarrow> nat \<Rightarrow> nat \<Rightarrow> nat \<Rightarrow> real list list \<Rightarrow> bool" where
  "log_columns_upto al T U m a \<longleftrightarrow>
     length a = T \<and> (\<forall>t<T. length (a ! t) = U) \<and> (\<forall>t<T. \<forall>u<m. exp (a ! t ! u) = al t u)"

text \<open>
  A lattice of \<open>T\<close> rows of \<open>U\<close> cells; a log lattice \<open>L\<close> that holds the
  logarithms of the probabilities \<open>b\<close> and \<open>s\<close>.
\<close>

definition lattice_shape :: "real list list list \<Rightarrow> nat \<Rightarrow> nat \<Rightarrow> bool" where
  "lattice_shape J T U \<longleftrightarrow> length J = T \<and> (\<forall>t<T. length (J ! t) = U)"

definition log_of ::
  "real list list list \<Rightarrow> int list \<Rightarrow> nat \<Rightarrow> nat \<Rightarrow> (nat \<Rightarrow> nat \<Rightarrow> real) \<Rightarrow> (nat \<Rightarrow> nat \<Rightarrow> real) \<Rightarrow> bool" where
  "log_of L targets T U b s \<longleftrightarrow>
     (\<forall>t<T. \<forall>u<U. exp (L ! t ! u ! 0) = b t u \<and> exp (L ! t ! u ! nat (targets ! u)) = s t u)"

section \<open>Conditions on the targets\<close>

text \<open>The index into the last dimension that \<open>joint[t, u, targets[u]]\<close> reads.\<close>

definition symbol_index :: "nat \<Rightarrow> int list \<Rightarrow> nat \<Rightarrow> error + nat" where
  "symbol_index K targets u = bindE (target_at targets u) (py_index K)"

text \<open>
  A label of the vocabulary. The labels that the loops over \<open>u\<close> in \<open>range(1, U)\<close>
  read, \<open>targets[0]\<close> to \<open>targets[U - 2]\<close>: they exist and lie in \<open>[0, K)\<close>; they
  exist and can be used as indices, \<open>[-K, K)\<close>; none of them is the blank index 0.
\<close>

definition in_vocab :: "nat \<Rightarrow> int \<Rightarrow> bool" where
  "in_vocab K y \<longleftrightarrow> 0 \<le> y \<and> y < int K"

definition labels_ok :: "nat \<Rightarrow> nat \<Rightarrow> int list \<Rightarrow> bool" where
  "labels_ok K U targets \<longleftrightarrow>
     list_all (\<lambda>u. u < length targets \<and> 0 \<le> targets ! u \<and> targets ! u < int K) [0..<U - 1]"

definition labels_readable :: "nat \<Rightarrow> nat \<Rightarrow> int list \<Rightarrow> bool" where
  "labels_readable K U targets \<longleftrightarrow>
     list_all (\<lambda>u. u < length targets \<and> - int K \<le> targets ! u \<and> targets ! u < int K) [0..<U - 1]"

definition labels_nonblank :: "nat \<Rightarrow> int list \<Rightarrow> bool" where
  "labels_nonblank U targets \<longleftrightarrow> list_all (\<lambda>u. targets ! u \<noteq> 0) [0..<U - 1]"

text \<open>
  The contract of the specification on the whole array: \<open>U\<close> targets, all in
  \<open>[0, K)\<close>.
\<close>

definition targets_ok :: "nat \<Rightarrow> nat \<Rightarrow> int list \<Rightarrow> bool" where
  "targets_ok K U targets \<longleftrightarrow>
     length targets = U \<and> list_all (\<lambda>y. 0 \<le> y \<and> y < int K) targets"

section \<open>Example inputs\<close>

text \<open>The tensors that the test \<open>_test_simple\<close> of the source passes (T = 4, U = 3, K = 4).\<close>

definition simple_tp :: tensor2 where
  "simple_tp = \<lparr>nrows = 4, ncols = 4,
     vals = [[1, 0, 0, 0], [0.1, 0.2, 0.3, 0.4], [0.1, 0.2, 0.3, 0.4], [0.1, 0.2, 0.3, 0.4]]\<rparr>"

definition simple_pp :: tensor2 where
  "simple_pp = \<lparr>nrows = 3, ncols = 4,
     vals = [[1, 0, 0, 0], [0.1, 0.2, 0.3, 0.4], [0.1, 0.2, 0.3, 0.4]]\<rparr>"

definition simple_targets :: "int list" where
  "simple_targets = [0, 1, 2]"

text \<open>
  Scores that give the blank index probability 4/5 in every cell (T = 2, U = 2, K = 2).
\<close>

definition blank_tp :: tensor2 where
  "blank_tp = \<lparr>nrows = 2, ncols = 2, vals = [[ln 4, 0], [ln 4, 0]]\<rparr>"

definition blank_pp :: tensor2 where
  "blank_pp = \<lparr>nrows = 2, ncols = 2, vals = [[0, 0], [0, 0]]\<rparr>"

text \<open>
  Score matrices whose vocabulary sizes differ, and a prediction matrix without rows.
\<close>

definition narrow_tp :: tensor2 where
  "narrow_tp = \<lparr>nrows = 1, ncols = 1, vals = [[0]]\<rparr>"

definition wide_pp :: tensor2 where
  "wide_pp = \<lparr>nrows = 1, ncols = 3, vals = [[0, 0, 0]]\<rparr>"

definition empty_pp :: tensor2 where
  "empty_pp = \<lparr>nrows = 0, ncols = 4, vals = []\<rparr>"

section \<open>Loops that may raise\<close>

lemma bindE_Inr [simp]: "bindE (Inr x) f = f x" by (simp add: bindE_def)
lemma bindE_Inl [simp]: "bindE (Inl e) f = Inl e" by (simp add: bindE_def)

lemma foldE_append: "foldE f (xs @ ys) s = bindE (foldE f xs s) (foldE f ys)"
  by (induction xs arbitrary: s) (auto split: sum.splits)

lemma foldE_upt_rule:
  assumes step: "\<And>i s. lo \<le> i \<Longrightarrow> i < hi \<Longrightarrow> P i s \<Longrightarrow> \<exists>s'. f i s = Inr s' \<and> P (Suc i) s'"
    and "lo \<le> hi" and "P lo s"
  shows "\<exists>s'. foldE f [lo..<hi] s = Inr s' \<and> P hi s'"
proof -
  have "n \<le> hi \<Longrightarrow> lo \<le> n \<Longrightarrow> \<exists>s'. foldE f [lo..<n] s = Inr s' \<and> P n s'" for n
  proof (induction n)
    case 0
    then show ?case using assms(3) by simp
  next
    case (Suc n)
    show ?case
    proof (cases "lo = Suc n")
      case True
      then show ?thesis using assms(3) by simp
    next
      case False
      then have le: "lo \<le> n" using Suc.prems by simp
      then obtain s1 where s1: "foldE f [lo..<n] s = Inr s1" "P n s1"
        using Suc by auto
      obtain s2 where "f n s1 = Inr s2" "P (Suc n) s2"
        using step [of n s1] le Suc.prems s1 by auto
      then show ?thesis using s1 le by (simp add: foldE_append)
    qed
  qed
  then show ?thesis using assms(2) by blast
qed

section \<open>The nested loops fill the table by the recurrence\<close>

lemma table_upto_set2:
  assumes "table_upto al T U n m a" "n < T" "m < U" "v = al n m"
  shows "table_upto al T U n (Suc m) (set2 a n m v)"
  using assms unfolding table_upto_def set2_def
  by (auto simp: nth_list_update less_Suc_eq)

lemma table_upto_next_row:
  assumes "table_upto al T U n U a" 
  shows "table_upto al T U (Suc n) 0 a"
  using assms unfolding table_upto_def by (auto simp: less_Suc_eq)

lemma py_index_blank: "0 < K \<Longrightarrow> py_index K 0 = Inr 0"
  by (simp add: py_index_def)

lemma getitem3_blank: "0 < K \<Longrightarrow> getitem3 J K t u 0 = Inr (J ! t ! u ! 0)"
  by (simp add: getitem3_def py_index_blank)

lemma getitem3_symbol:
  "symbol_index K targets u = Inr k \<Longrightarrow>
   bindE (target_at targets u) (\<lambda>y. bindE (getitem3 J K t u y) g) = g (J ! t ! u ! k)"
  by (auto simp: symbol_index_def getitem3_def bindE_def split: sum.splits)

lemma first_row_loop:
  assumes sym: "\<And>u. Suc u < U \<Longrightarrow> symbol_index K targets u = Inr (kk u)"
    and inv: "table_upto (alpha_rec b (\<lambda>t u. J ! t ! u ! kk u)) T U 0 1 a" and "0 < T" "0 < U"
  shows "\<exists>a'. foldE (first_row_step J K targets) [1..<U] a = Inr a' \<and>
     table_upto (alpha_rec b (\<lambda>t u. J ! t ! u ! kk u)) T U 0 U a'"
proof (rule foldE_upt_rule [where P = "\<lambda>i. table_upto (alpha_rec b (\<lambda>t u. J ! t ! u ! kk u)) T U 0 i"])
  fix i a assume i: "1 \<le> i" "i < U"
    and a: "table_upto (alpha_rec b (\<lambda>t u. J ! t ! u ! kk u)) T U 0 i a"
  obtain j where j: "i = Suc j" using i by (cases i) auto
  have s: "symbol_index K targets j = Inr (kk j)" using sym i j by simp
  have prev: "get2 a 0 j = alpha_rec b (\<lambda>t u. J ! t ! u ! kk u) 0 j"
    using a j unfolding table_upto_def get2_def by simp
  have "first_row_step J K targets i a =
      Inr (set2 a 0 i (alpha_rec b (\<lambda>t u. J ! t ! u ! kk u) 0 i))"
    unfolding first_row_step_def j by (simp add: getitem3_symbol [OF s] prev)
  moreover have "table_upto (alpha_rec b (\<lambda>t u. J ! t ! u ! kk u)) T U 0 (Suc i)
      (set2 a 0 i (alpha_rec b (\<lambda>t u. J ! t ! u ! kk u) 0 i))"
    using a \<open>0 < T\<close> i by (intro table_upto_set2) auto
  ultimately show "\<exists>s'. first_row_step J K targets i a = Inr s' \<and>
      table_upto (alpha_rec b (\<lambda>t u. J ! t ! u ! kk u)) T U 0 (Suc i) s'" by simp
next
  show "1 \<le> U" using \<open>0 < U\<close> by simp
  show "table_upto (alpha_rec b (\<lambda>t u. J ! t ! u ! kk u)) T U 0 1 a" by (rule inv)
qed

lemma inner_loop:
  assumes sym: "\<And>u. Suc u < U \<Longrightarrow> symbol_index K targets u = Inr (kk u)"
    and inv: "table_upto (alpha_rec (\<lambda>t u. J ! t ! u ! 0) (\<lambda>t u. J ! t ! u ! kk u)) T U (Suc n) 1 a"
    and "Suc n < T" "0 < U" "0 < K"
  shows "\<exists>a'. foldE (inner_step J K targets (Suc n)) [1..<U] a = Inr a' \<and>
     table_upto (alpha_rec (\<lambda>t u. J ! t ! u ! 0) (\<lambda>t u. J ! t ! u ! kk u)) T U (Suc n) U a'"
proof (rule foldE_upt_rule [where P = "\<lambda>i. table_upto (alpha_rec (\<lambda>t u. J ! t ! u ! 0) (\<lambda>t u. J ! t ! u ! kk u)) T U (Suc n) i"])
  let ?al = "alpha_rec (\<lambda>t u. J ! t ! u ! 0) (\<lambda>t u. J ! t ! u ! kk u)"
  fix i a assume i: "1 \<le> i" "i < U" and a: "table_upto ?al T U (Suc n) i a"
  obtain j where j: "i = Suc j" using i by (cases i) auto
  have s: "symbol_index K targets j = Inr (kk j)" using sym i j by simp
  have left: "get2 a (Suc n) j = ?al (Suc n) j"
    using a j unfolding table_upto_def get2_def by simp
  have up: "get2 a n (Suc j) = ?al n (Suc j)"
    using a j i unfolding table_upto_def get2_def by simp
  have "inner_step J K targets (Suc n) i a = Inr (set2 a (Suc n) i (?al (Suc n) i))"
    unfolding inner_step_def j
    by (simp add: getitem3_symbol [OF s] getitem3_blank [OF \<open>0 < K\<close>] left up)
  moreover have "table_upto ?al T U (Suc n) (Suc i) (set2 a (Suc n) i (?al (Suc n) i))"
    using a \<open>Suc n < T\<close> i by (intro table_upto_set2) auto
  ultimately show "\<exists>s'. inner_step J K targets (Suc n) i a = Inr s' \<and>
      table_upto ?al T U (Suc n) (Suc i) s'" by simp
next
  show "1 \<le> U" using \<open>0 < U\<close> by simp
  show "table_upto (alpha_rec (\<lambda>t u. J ! t ! u ! 0) (\<lambda>t u. J ! t ! u ! kk u)) T U (Suc n) 1 a" by (rule inv)
qed

lemma outer_loop:
  assumes sym: "\<And>u. Suc u < U \<Longrightarrow> symbol_index K targets u = Inr (kk u)"
    and inv: "table_upto (alpha_rec (\<lambda>t u. J ! t ! u ! 0) (\<lambda>t u. J ! t ! u ! kk u)) T U 1 0 a"
    and "0 < T" "0 < U" "0 < K"
  shows "\<exists>a'. foldE (outer_step J K U targets) [1..<T] a = Inr a' \<and>
     table_upto (alpha_rec (\<lambda>t u. J ! t ! u ! 0) (\<lambda>t u. J ! t ! u ! kk u)) T U T 0 a'"
proof (rule foldE_upt_rule [where P = "\<lambda>i. table_upto (alpha_rec (\<lambda>t u. J ! t ! u ! 0) (\<lambda>t u. J ! t ! u ! kk u)) T U i 0"])
  let ?al = "alpha_rec (\<lambda>t u. J ! t ! u ! 0) (\<lambda>t u. J ! t ! u ! kk u)"
  fix i a assume i: "1 \<le> i" "i < T" and a: "table_upto ?al T U i 0 a"
  obtain n where n: "i = Suc n" using i by (cases i) auto
  have up: "get2 a n 0 = ?al n 0"
    using a n \<open>0 < U\<close> unfolding table_upto_def get2_def by simp
  have a1: "table_upto ?al T U (Suc n) 1 (set2 a (Suc n) 0 (?al (Suc n) 0))"
    using table_upto_set2 [of ?al T U "Suc n" 0 a] a n i \<open>0 < U\<close> by simp
  obtain a' where "foldE (inner_step J K targets (Suc n)) [1..<U] (set2 a (Suc n) 0 (?al (Suc n) 0)) = Inr a'"
      "table_upto ?al T U (Suc n) U a'"
    using inner_loop [OF sym a1] i n \<open>0 < U\<close> \<open>0 < K\<close> by auto
  then show "\<exists>s'. outer_step J K U targets i a = Inr s' \<and> table_upto ?al T U (Suc i) 0 s'"
    unfolding outer_step_def n
    by (auto simp: getitem3_blank [OF \<open>0 < K\<close>] up intro: table_upto_next_row)
next
  show "1 \<le> T" using \<open>0 < T\<close> by simp
  show "table_upto (alpha_rec (\<lambda>t u. J ! t ! u ! 0) (\<lambda>t u. J ! t ! u ! kk u)) T U 1 0 a" by (rule inv)
qed

lemma init_table:
  assumes "0 < T" "0 < U"
  shows "setitem2 (new_zeros T U) 0 0 1 = Inr (set2 (new_zeros T U) 0 0 1)"
    and "table_upto (alpha_rec b s) T U 0 1 (set2 (new_zeros T U) 0 0 1)"
  using assms
  by (auto simp: setitem2_def new_zeros_def new_full_def table_upto_def set2_def nth_list_update)

lemma score1_fill_correct:
  assumes sym: "\<And>u. Suc u < U \<Longrightarrow> symbol_index K targets u = Inr (kk u)"
    and "0 < T" "0 < U" "0 < K"
  shows "\<exists>a. score1_fill J K T U targets = Inr a \<and>
     table_upto (alpha_rec (\<lambda>t u. J ! t ! u ! 0) (\<lambda>t u. J ! t ! u ! kk u)) T U T 0 a"
proof -
  let ?al = "alpha_rec (\<lambda>t u. J ! t ! u ! 0) (\<lambda>t u. J ! t ! u ! kk u)"
  obtain a1 where a1: "foldE (first_row_step J K targets) [1..<U] (set2 (new_zeros T U) 0 0 1) = Inr a1"
     "table_upto ?al T U 0 U a1"
    using first_row_loop [OF sym init_table(2) \<open>0 < T\<close> \<open>0 < U\<close>] assms by blast
  have "table_upto ?al T U 1 0 a1" using table_upto_next_row [OF a1(2)] by simp
  from outer_loop [OF sym this \<open>0 < T\<close> \<open>0 < U\<close> \<open>0 < K\<close>]
  obtain a2 where "foldE (outer_step J K U targets) [1..<T] a1 = Inr a2" "table_upto ?al T U T 0 a2"
    by blast
  then show ?thesis
    unfolding score1_fill_def using init_table(1) [OF \<open>0 < T\<close> \<open>0 < U\<close>] a1 by simp
qed

lemma labels_ok_symbol:
  assumes "labels_ok K U targets" "Suc u < U"
  shows "symbol_index K targets u = Inr (nat (targets ! u))"
proof -
  have "u \<in> set [0..<U - 1]" using assms(2) by simp
  then have "u < length targets \<and> 0 \<le> targets ! u \<and> targets ! u < int K"
    using assms(1) unfolding labels_ok_def list_all_iff by blast
  then show ?thesis by (simp add: symbol_index_def target_at_def py_index_def)
qed

lemma broadcast_dim_same [simp]: "broadcast_dim K K = K"
  by (simp add: broadcast_dim_def)

lemma broadcastable_same [simp]: "broadcastable K K"
  by (simp add: broadcastable_def)

lemma score1_result:
  assumes "ncols pp = ncols tp" "0 < ncols tp" "0 < nrows tp" "0 < nrows pp"
    and "labels_ok (ncols tp) (nrows pp) targets"
  shows "\<exists>a. transducer_forward_alpha1 tp pp targets = Inr a \<and>
     table_upto (alpha_rec (\<lambda>t u. prob_lattice tp pp ! t ! u ! 0)
        (\<lambda>t u. prob_lattice tp pp ! t ! u ! nat (targets ! u))) (nrows tp) (nrows pp) (nrows tp) 0 a \<and>
     transducer_forward_score1 tp pp targets =
       Inr (a ! (nrows tp - 1) ! (nrows pp - 1) * prob_lattice tp pp ! (nrows tp - 1) ! (nrows pp - 1) ! 0)"
proof -
  let ?J = "prob_lattice tp pp"
  have sym: "\<And>u. Suc u < nrows pp \<Longrightarrow> symbol_index (ncols tp) targets u = Inr (nat (targets ! u))"
    using labels_ok_symbol [OF assms(5)] .
  obtain a where a: "score1_fill ?J (ncols tp) (nrows tp) (nrows pp) targets = Inr a"
    "table_upto (alpha_rec (\<lambda>t u. ?J ! t ! u ! 0) (\<lambda>t u. ?J ! t ! u ! nat (targets ! u)))
       (nrows tp) (nrows pp) (nrows tp) 0 a"
    using score1_fill_correct [OF sym assms(3) assms(4) assms(2), of ?J] by blast
  show ?thesis
    using a assms(1,2)
    by (simp add: transducer_forward_alpha1_def transducer_forward_score1_def joint_probs_def
        getitem3_blank get2_def Let_def)
qed

text \<open>
  What the loops compute, in terms of the array they are given: the label they read when
  the column advances from \<open>u\<close> to \<open>u + 1\<close> is \<open>targets[u]\<close>.
\<close>

lemma score1_table_as_read:
  assumes "ncols pp = ncols tp" "0 < ncols tp" "0 < nrows tp" "0 < nrows pp"
    and "labels_ok (ncols tp) (nrows pp) targets"
  shows "\<exists>alpha. transducer_forward_alpha1 tp pp targets = Inr alpha \<and>
     length alpha = nrows tp \<and> (\<forall>t<nrows tp. length (alpha ! t) = nrows pp) \<and>
     alpha ! 0 ! 0 = 1 \<and>
     (\<forall>u. Suc u < nrows pp \<longrightarrow>
        alpha ! 0 ! Suc u = alpha ! 0 ! u * prob_lattice tp pp ! 0 ! u ! nat (targets ! u)) \<and>
     (\<forall>t. Suc t < nrows tp \<longrightarrow>
        alpha ! Suc t ! 0 = alpha ! t ! 0 * prob_lattice tp pp ! t ! 0 ! 0) \<and>
     (\<forall>t u. Suc t < nrows tp \<longrightarrow> Suc u < nrows pp \<longrightarrow>
        alpha ! Suc t ! Suc u =
          alpha ! t ! Suc u * prob_lattice tp pp ! t ! Suc u ! 0 +
          alpha ! Suc t ! u * prob_lattice tp pp ! Suc t ! u ! nat (targets ! u)) \<and>
     transducer_forward_score1 tp pp targets =
       Inr (alpha ! (nrows tp - 1) ! (nrows pp - 1) *
            prob_lattice tp pp ! (nrows tp - 1) ! (nrows pp - 1) ! 0)"
proof -
  let ?al = "alpha_rec (\<lambda>t u. prob_lattice tp pp ! t ! u ! 0)
        (\<lambda>t u. prob_lattice tp pp ! t ! u ! nat (targets ! u))"
  obtain a where a: "transducer_forward_alpha1 tp pp targets = Inr a"
    "table_upto ?al (nrows tp) (nrows pp) (nrows tp) 0 a"
    "transducer_forward_score1 tp pp targets =
       Inr (a ! (nrows tp - 1) ! (nrows pp - 1) * prob_lattice tp pp ! (nrows tp - 1) ! (nrows pp - 1) ! 0)"
    using score1_result [OF assms] by blast
  have e: "\<And>t u. t < nrows tp \<Longrightarrow> u < nrows pp \<Longrightarrow> a ! t ! u = ?al t u"
    using a(2) unfolding table_upto_def by simp
  have len: "length a = nrows tp" "\<forall>t<nrows tp. length (a ! t) = nrows pp"
    using a(2) unfolding table_upto_def by simp_all
  have "a ! 0 ! 0 = 1" using e [of 0 0] assms by simp
  moreover have "\<forall>u. Suc u < nrows pp \<longrightarrow>
        a ! 0 ! Suc u = a ! 0 ! u * prob_lattice tp pp ! 0 ! u ! nat (targets ! u)"
    using e assms(3) by simp
  moreover have "\<forall>t. Suc t < nrows tp \<longrightarrow> a ! Suc t ! 0 = a ! t ! 0 * prob_lattice tp pp ! t ! 0 ! 0"
    using e assms(4) by simp
  moreover have "\<forall>t u. Suc t < nrows tp \<longrightarrow> Suc u < nrows pp \<longrightarrow>
        a ! Suc t ! Suc u =
          a ! t ! Suc u * prob_lattice tp pp ! t ! Suc u ! 0 +
          a ! Suc t ! u * prob_lattice tp pp ! Suc t ! u ! nat (targets ! u)"
    using e by simp
  ultimately show ?thesis using a(1,3) len by blast
qed

subsection \<open>The first column and the first row\<close>

lemma alpha_rec_col0: "alpha_rec b s t 0 = (\<Prod>i<t. b i 0)"
  by (induction t) (simp_all add: mult.commute)


lemma simple_shapes [simp]:
  "nrows simple_tp = 4" "ncols simple_tp = 4" "nrows simple_pp = 3" "ncols simple_pp = 4"
  by (simp_all add: simple_tp_def simple_pp_def)

lemma simple_labels_ok: "labels_ok 4 3 simple_targets"
  by (simp add: labels_ok_def simple_targets_def upt_conv_Cons)

section \<open>Entries of the joint lattice\<close>

lemma wf_tensor2_row:
  assumes "wf_tensor2 m" "t < nrows m"
  shows "length (vals m ! t) = ncols m" "length (vals m) = nrows m"
  using assms unfolding wf_tensor2_def list_all_length by auto

lemma lattice_sum_nth:
  assumes "wf_tensor2 tp" "wf_tensor2 pp" "ncols pp = ncols tp" "t < nrows tp" "u < nrows pp"
  shows "lattice_sum tp pp ! t ! u = map2 (+) (vals tp ! t) (vals pp ! u)"
  using assms wf_tensor2_row [OF assms(1) assms(4)] wf_tensor2_row [OF assms(2) assms(5)]
  by (simp add: lattice_sum_def broadcast_add_def)

lemma lattice_sum_length:
  assumes "wf_tensor2 tp" "wf_tensor2 pp" "ncols pp = ncols tp" "t < nrows tp" "u < nrows pp"
  shows "length (lattice_sum tp pp) = nrows tp" "length (lattice_sum tp pp ! t) = nrows pp"
    "length (lattice_sum tp pp ! t ! u) = ncols tp"
  using assms wf_tensor2_row [OF assms(1) assms(4)] wf_tensor2_row [OF assms(2) assms(5)]
  by (simp_all add: lattice_sum_def broadcast_add_def)

lemma sum_list_exp_nth: "sum_list (map exp xs) = (\<Sum>j<length xs. exp (xs ! j :: real))"
  by (simp add: sum_list_sum_nth atLeast0LessThan)

lemma softmax_nth:
  "k < length xs \<Longrightarrow> softmax xs ! k = exp (xs ! k) / (\<Sum>j<length xs. exp (xs ! j))"
  by (simp add: softmax_def sum_list_exp_nth)

lemma log_softmax_nth:
  "k < length xs \<Longrightarrow> log_softmax xs ! k = xs ! k - ln (\<Sum>j<length xs. exp (xs ! j))"
  by (simp add: log_softmax_def sum_list_exp_nth)

lemma prob_lattice_nth:
  assumes "wf_tensor2 tp" "wf_tensor2 pp" "ncols pp = ncols tp" "t < nrows tp" "u < nrows pp"
  shows "prob_lattice tp pp ! t ! u = softmax (lattice_sum tp pp ! t ! u)"
  using lattice_sum_length [OF assms] assms(4,5) by (simp add: prob_lattice_def)

lemma log_lattice_nth:
  assumes "wf_tensor2 tp" "wf_tensor2 pp" "ncols pp = ncols tp" "t < nrows tp" "u < nrows pp"
  shows "log_lattice tp pp ! t ! u = log_softmax (lattice_sum tp pp ! t ! u)"
  using lattice_sum_length [OF assms] assms(4,5) by (simp add: log_lattice_def)

section \<open>The forward variable is a sub-probability\<close>

lemma alpha_rec_nonneg_aux:
  "\<forall>i j. 0 \<le> b i j \<Longrightarrow> \<forall>i j. 0 \<le> s i j \<Longrightarrow> 0 \<le> alpha_rec b s t u"
  by (induction b s t u rule: alpha_rec.induct) simp_all

lemma alpha_rec_nonneg:
  assumes "\<And>i j. 0 \<le> b i j" "\<And>i j. 0 \<le> s i j"
  shows "0 \<le> alpha_rec b s t u"
  using alpha_rec_nonneg_aux [of b s] assms by blast

lemma alpha_rec_split:
  "(t, u) \<noteq> (0, 0) \<Longrightarrow> alpha_rec b s t u =
     (if t = 0 then 0 else alpha_rec b s (t - 1) u * b (t - 1) u) +
     (if u = 0 then 0 else alpha_rec b s t (u - 1) * s t (u - 1))"
  by (cases t; cases u) simp_all

lemma diag_sum_Suc:
  "diag_sum b s (Suc n) = (\<Sum>i\<le>n. alpha_rec b s i (n - i) * (b i (n - i) + s i (n - i)))"
proof -
  let ?a = "alpha_rec b s"
  let ?up = "\<lambda>i j. if i = 0 then 0 else ?a (i - 1) j * b (i - 1) j"
  let ?left = "\<lambda>i j. if j = 0 then 0 else ?a i (j - 1) * s i (j - 1)"
  have "diag_sum b s (Suc n) = (\<Sum>i\<le>Suc n. ?up i (Suc n - i) + ?left i (Suc n - i))"
    unfolding diag_sum_def
    by (rule sum.cong [OF refl]) (subst alpha_rec_split, auto)
  also have "\<dots> = (\<Sum>i\<le>Suc n. ?up i (Suc n - i)) + (\<Sum>i\<le>Suc n. ?left i (Suc n - i))"
    by (rule sum.distrib)
  also have "(\<Sum>i\<le>Suc n. ?up i (Suc n - i)) = (\<Sum>i\<le>n. ?a i (n - i) * b i (n - i))"
    by (subst sum.atMost_Suc_shift) simp
  also have "(\<Sum>i\<le>Suc n. ?left i (Suc n - i)) = (\<Sum>i\<le>n. ?a i (n - i) * s i (n - i))"
    by (simp add: Suc_diff_le)
  finally show ?thesis by (simp add: sum.distrib distrib_left)
qed

lemma diag_sum_le_1:
  assumes "\<And>i j. 0 \<le> b i j" "\<And>i j. 0 \<le> s i j" "\<And>i j. b i j + s i j \<le> 1"
  shows "diag_sum b s n \<le> 1"
proof (induction n)
  case 0
  show ?case by (simp add: diag_sum_def)
next
  case (Suc n)
  have "diag_sum b s (Suc n) \<le> (\<Sum>i\<le>n. alpha_rec b s i (n - i) * 1)"
    unfolding diag_sum_Suc
    by (intro sum_mono mult_left_mono assms(3) alpha_rec_nonneg assms(1,2))
  also have "\<dots> = diag_sum b s n" by (simp add: diag_sum_def)
  finally show ?case using Suc by simp
qed

lemma alpha_rec_le_1:
  assumes "\<And>i j. 0 \<le> b i j" "\<And>i j. 0 \<le> s i j" "\<And>i j. b i j + s i j \<le> 1"
  shows "alpha_rec b s t u \<le> 1"
proof -
  have "alpha_rec b s t (t + u - t) \<le> diag_sum b s (t + u)"
    unfolding diag_sum_def
    by (rule member_le_sum) (auto intro: alpha_rec_nonneg assms)
  moreover have "diag_sum b s (t + u) \<le> 1"
    by (rule diag_sum_le_1) (rule assms)+
  ultimately show ?thesis by simp
qed

lemma alpha_rec_cong_rect:
  assumes "\<And>i j. i < t \<Longrightarrow> j \<le> u \<Longrightarrow> b i j = b' i j"
    and "\<And>i j. i \<le> t \<Longrightarrow> j < u \<Longrightarrow> s i j = s' i j"
  shows "alpha_rec b s t u = alpha_rec b' s' t u"
  using assms
proof (induction b s t u rule: alpha_rec.induct)
  case (1 b s)
  show ?case by simp
next
  case (2 b s u)
  then show ?case by simp
next
  case (3 b s t)
  then show ?case by simp
next
  case (4 b s t u)
  have "alpha_rec b s t (Suc u) = alpha_rec b' s' t (Suc u)"
    by (rule 4) (simp_all add: 4)
  moreover have "alpha_rec b s (Suc t) u = alpha_rec b' s' (Suc t) u"
    by (rule 4) (simp_all add: 4)
  ultimately show ?case using 4(3) [of t "Suc u"] 4(4) [of "Suc t" u] by simp
qed

lemma alpha_rec_unit_interval:
  assumes b: "\<And>i j. i < T \<Longrightarrow> j < U \<Longrightarrow> 0 \<le> b i j"
    and s: "\<And>i j. i < T \<Longrightarrow> Suc j < U \<Longrightarrow> 0 \<le> s i j \<and> b i j + s i j \<le> 1"
    and b1: "\<And>i j. i < T \<Longrightarrow> j < U \<Longrightarrow> b i j \<le> 1"
    and "t < T" "u < U"
  shows "0 \<le> alpha_rec b s t u \<and> alpha_rec b s t u \<le> 1"
proof -
  define b' where "b' = (\<lambda>i j. if i < T \<and> j < U then b i j else 0)"
  define s' where "s' = (\<lambda>i j. if i < T \<and> Suc j < U then s i j else 0)"
  have eq: "alpha_rec b s t u = alpha_rec b' s' t u"
    by (rule alpha_rec_cong_rect) (use \<open>t < T\<close> \<open>u < U\<close> in \<open>auto simp: b'_def s'_def\<close>)
  have 1: "\<And>i j. 0 \<le> b' i j" using b by (simp add: b'_def)
  have 2: "\<And>i j. 0 \<le> s' i j" using s by (simp add: s'_def)
  have 3: "\<And>i j. b' i j + s' i j \<le> 1" using s b1 by (auto simp: b'_def s'_def)
  show ?thesis
  proof
    show "0 \<le> alpha_rec b s t u" unfolding eq by (rule alpha_rec_nonneg) (rule 1 2)+
    show "alpha_rec b s t u \<le> 1" unfolding eq by (rule alpha_rec_le_1) (rule 1 2 3)+
  qed
qed

lemma exp_sum_pos: "0 < n \<Longrightarrow> 0 < (\<Sum>j<n. exp (xs ! j :: real))"
  by (rule sum_pos) auto

lemma softmax_bounds:
  assumes "k < length xs"
  shows "0 \<le> softmax xs ! k" "softmax xs ! k \<le> 1"
proof -
  have pos: "0 < (\<Sum>j<length xs. exp (xs ! j))" using assms by (intro exp_sum_pos) auto
  show "0 \<le> softmax xs ! k" using pos assms by (simp add: softmax_nth)
  have "exp (xs ! k) \<le> (\<Sum>j<length xs. exp (xs ! j))"
    by (rule member_le_sum) (use assms in auto)
  then show "softmax xs ! k \<le> 1" using pos assms by (simp add: softmax_nth)
qed

lemma softmax_two_le_1:
  assumes "k < length xs" "k \<noteq> 0"
  shows "softmax xs ! 0 + softmax xs ! k \<le> 1"
proof -
  have pos: "0 < (\<Sum>j<length xs. exp (xs ! j))" using assms by (intro exp_sum_pos) auto
  have "(\<Sum>j\<in>{0, k}. exp (xs ! j)) \<le> (\<Sum>j<length xs. exp (xs ! j))"
    by (rule sum_mono2) (use assms in auto)
  then have "exp (xs ! 0) + exp (xs ! k) \<le> (\<Sum>j<length xs. exp (xs ! j))"
    using assms(2) by simp
  moreover have "softmax xs ! 0 + softmax xs ! k =
      (exp (xs ! 0) + exp (xs ! k)) / (\<Sum>j<length xs. exp (xs ! j))"
  proof -
    have "0 < length xs" using assms(1) by (cases xs) auto
    then show ?thesis using assms(1) by (simp add: softmax_nth add_divide_distrib)
  qed
  ultimately show ?thesis using pos by simp
qed

lemma labels_nonblank_nth:
  "labels_nonblank U targets \<Longrightarrow> Suc u < U \<Longrightarrow> targets ! u \<noteq> 0"
  unfolding labels_nonblank_def list_all_iff by simp

lemma labels_ok_nth:
  "labels_ok K U targets \<Longrightarrow> Suc u < U \<Longrightarrow> 0 \<le> targets ! u \<and> targets ! u < int K"
  unfolding labels_ok_def list_all_iff by simp

text \<open>
  When none of the labels that the loops read is the blank index, the two transitions out
  of a cell read different softmax entries, and the table stays within \<open>[0, 1]\<close>.
\<close>

lemma score1_unit_interval_without_blank_labels:
  assumes "wf_tensor2 tp" "wf_tensor2 pp" "ncols pp = ncols tp"
    and "0 < ncols tp" "0 < nrows tp" "0 < nrows pp"
    and "labels_ok (ncols tp) (nrows pp) targets" "labels_nonblank (nrows pp) targets"
  shows "\<exists>alpha score. transducer_forward_alpha1 tp pp targets = Inr alpha \<and>
     (\<forall>t<nrows tp. \<forall>u<nrows pp. 0 \<le> alpha ! t ! u \<and> alpha ! t ! u \<le> 1) \<and>
     transducer_forward_score1 tp pp targets = Inr score \<and> 0 \<le> score \<and> score \<le> 1"
proof -
  let ?J = "prob_lattice tp pp"
  let ?b = "\<lambda>t u. ?J ! t ! u ! 0"
  let ?s = "\<lambda>t u. ?J ! t ! u ! nat (targets ! u)"
  obtain a where a: "transducer_forward_alpha1 tp pp targets = Inr a"
    "table_upto (alpha_rec ?b ?s) (nrows tp) (nrows pp) (nrows tp) 0 a"
    "transducer_forward_score1 tp pp targets =
       Inr (a ! (nrows tp - 1) ! (nrows pp - 1) * ?b (nrows tp - 1) (nrows pp - 1))"
    using score1_result [OF assms(3,4,5,6,7)] by blast
  have J: "\<And>t u. t < nrows tp \<Longrightarrow> u < nrows pp \<Longrightarrow>
      ?J ! t ! u = softmax (lattice_sum tp pp ! t ! u) \<and> length (lattice_sum tp pp ! t ! u) = ncols tp"
    using prob_lattice_nth [OF assms(1,2,3)] lattice_sum_length(3) [OF assms(1,2,3)] by simp
  have b: "\<And>i j. i < nrows tp \<Longrightarrow> j < nrows pp \<Longrightarrow> 0 \<le> ?b i j \<and> ?b i j \<le> 1"
    using J assms(4) softmax_bounds by simp
  have s: "\<And>i j. i < nrows tp \<Longrightarrow> Suc j < nrows pp \<Longrightarrow> 0 \<le> ?s i j \<and> ?b i j + ?s i j \<le> 1"
  proof -
    fix i j assume ij: "i < nrows tp" "Suc j < nrows pp"
    have k: "nat (targets ! j) < ncols tp" "nat (targets ! j) \<noteq> 0"
      using labels_ok_nth [OF assms(7) ij(2)] labels_nonblank_nth [OF assms(8) ij(2)] by auto
    have Jij: "?J ! i ! j = softmax (lattice_sum tp pp ! i ! j)"
      "length (lattice_sum tp pp ! i ! j) = ncols tp"
      using J [of i j] ij by simp_all
    show "0 \<le> ?s i j \<and> ?b i j + ?s i j \<le> 1"
      unfolding Jij(1) using softmax_bounds(1) softmax_two_le_1 k Jij(2) by simp
  qed
  have al: "\<And>t u. t < nrows tp \<Longrightarrow> u < nrows pp \<Longrightarrow>
      0 \<le> alpha_rec ?b ?s t u \<and> alpha_rec ?b ?s t u \<le> 1"
    by (rule alpha_rec_unit_interval [where T = "nrows tp" and U = "nrows pp"]) (use b s in auto)
  have e: "\<And>t u. t < nrows tp \<Longrightarrow> u < nrows pp \<Longrightarrow> a ! t ! u = alpha_rec ?b ?s t u"
    using a(2) unfolding table_upto_def by simp
  have tab: "\<forall>t<nrows tp. \<forall>u<nrows pp. 0 \<le> a ! t ! u \<and> a ! t ! u \<le> 1"
    using al e by simp
  let ?v = "a ! (nrows tp - 1) ! (nrows pp - 1)"
  let ?f = "?b (nrows tp - 1) (nrows pp - 1)"
  have v: "0 \<le> ?v \<and> ?v \<le> 1" using tab assms(5,6) by simp
  have f: "0 \<le> ?f \<and> ?f \<le> 1" using b [of "nrows tp - 1" "nrows pp - 1"] assms(5,6) by simp
  have "0 \<le> ?v * ?f \<and> ?v * ?f \<le> 1" using v f by (simp add: mult_le_one)
  then show ?thesis using a(1,3) tab by blast
qed

lemma blank_shapes [simp]:
  "nrows blank_tp = 2" "ncols blank_tp = 2" "nrows blank_pp = 2" "ncols blank_pp = 2"
  by (simp_all add: blank_tp_def blank_pp_def)

lemma blank_lattice:
  "prob_lattice blank_tp blank_pp =
     [[[4 / 5, 1 / 5], [4 / 5, 1 / 5]], [[4 / 5, 1 / 5], [4 / 5, 1 / 5]]]"
  by (simp add: prob_lattice_def lattice_sum_def blank_tp_def blank_pp_def broadcast_add_def
      softmax_def)

lemma simple_wf: "wf_tensor2 simple_tp" "wf_tensor2 simple_pp"
  by (simp_all add: wf_tensor2_def simple_tp_def simple_pp_def)

section \<open>When the nested loops raise\<close>

lemma py_index_cases:
  "py_index n i = Inl IndexError \<or> (\<exists>k. py_index n i = Inr k)"
  by (simp add: py_index_def)

lemma py_index_ok_iff: "(\<exists>k. py_index n i = Inr k) \<longleftrightarrow> - int n \<le> i \<and> i < int n"
  by (auto simp: py_index_def)

lemma symbol_index_ok_iff:
  "(\<exists>k. symbol_index K targets u = Inr k) \<longleftrightarrow>
     u < length targets \<and> - int K \<le> targets ! u \<and> targets ! u < int K"
  using py_index_ok_iff [of K "targets ! u"]
  by (auto simp: symbol_index_def target_at_def)

lemma symbol_index_cases:
  "symbol_index K targets u = Inl IndexError \<or> (\<exists>k. symbol_index K targets u = Inr k)"
  using py_index_cases [of K "targets ! u"]
  by (auto simp: symbol_index_def target_at_def)

lemma getitem3_cases:
  "getitem3 J K t u k = Inl IndexError \<or> (\<exists>v. getitem3 J K t u k = Inr v)"
  using py_index_cases [of K k] by (auto simp: getitem3_def)

lemma first_row_step_cases:
  "first_row_step J K targets u a = Inl IndexError \<or> (\<exists>a'. first_row_step J K targets u a = Inr a')"
  using py_index_cases [of K "targets ! (u - 1)"]
  by (auto simp: first_row_step_def target_at_def getitem3_def)

lemma first_row_step_fails:
  assumes "symbol_index K targets (u - 1) = Inl IndexError"
  shows "first_row_step J K targets u a = Inl IndexError"
  using assms
  by (auto simp: first_row_step_def symbol_index_def target_at_def getitem3_def bindE_def
      split: if_splits sum.splits)

lemma foldE_fails:
  assumes "\<exists>x\<in>set xs. \<forall>s. f x s = Inl e"
    and "\<forall>x\<in>set xs. \<forall>s. f x s = Inl e \<or> (\<exists>s'. f x s = Inr s')"
  shows "foldE f xs s = Inl e"
  using assms
proof (induction xs arbitrary: s)
  case Nil
  then show ?case by simp
next
  case (Cons x xs)
  show ?case
  proof (cases "f x s")
    case (Inl e')
    moreover have "f x s = Inl e \<or> (\<exists>s'. f x s = Inr s')" using Cons.prems(2) by simp
    ultimately show ?thesis by auto
  next
    case (Inr s')
    then have "f x s \<noteq> Inl e" by simp
    then have "\<not> (\<forall>s. f x s = Inl e)" by blast
    then have "\<exists>x\<in>set xs. \<forall>s. f x s = Inl e" using Cons.prems(1) by auto
    then have "foldE f xs s' = Inl e" using Cons.IH Cons.prems(2) by auto
    then show ?thesis using Inr by simp
  qed
qed

lemma labels_readable_symbol:
  assumes "labels_readable K U targets"
  shows "\<exists>kk. \<forall>u. Suc u < U \<longrightarrow> symbol_index K targets u = Inr (kk u)"
proof -
  have "\<forall>u. Suc u < U \<longrightarrow> (\<exists>k. symbol_index K targets u = Inr k)"
    using assms unfolding labels_readable_def list_all_iff symbol_index_ok_iff by simp
  then show ?thesis by metis
qed

lemma not_readable_symbol:
  assumes "\<not> labels_readable K U targets"
  shows "\<exists>u. Suc u < U \<and> symbol_index K targets u = Inl IndexError"
proof -
  obtain u where u: "Suc u < U"
      "\<not> (u < length targets \<and> - int K \<le> targets ! u \<and> targets ! u < int K)"
    using assms unfolding labels_readable_def list_all_iff by (auto simp: less_diff_conv)
  then have "\<not> (\<exists>k. symbol_index K targets u = Inr k)"
    unfolding symbol_index_ok_iff by simp
  then show ?thesis using symbol_index_cases [of K targets u] u(1) by auto
qed

lemma score1_fill_empty:
  assumes "T = 0 \<or> U = 0"
  shows "score1_fill J K T U targets = Inl IndexError"
  using assms by (auto simp: score1_fill_def setitem2_def new_zeros_def new_full_def)

lemma score1_fill_bad_label:
  assumes "0 < T" "0 < U" "\<not> labels_readable K U targets"
  shows "score1_fill J K T U targets = Inl IndexError"
proof -
  obtain u where u: "Suc u < U" "symbol_index K targets u = Inl IndexError"
    using not_readable_symbol [OF assms(3)] by blast
  have "foldE (first_row_step J K targets) [1..<U] a = Inl IndexError" for a
  proof (rule foldE_fails)
    have "Suc u \<in> set [1..<U]" using u(1) by simp
    moreover have "\<forall>s. first_row_step J K targets (Suc u) s = Inl IndexError"
      using first_row_step_fails [of K targets "Suc u" J] u(2) by simp
    ultimately show "\<exists>x\<in>set [1..<U]. \<forall>s. first_row_step J K targets x s = Inl IndexError"
      by blast
    show "\<forall>x\<in>set [1..<U]. \<forall>s. first_row_step J K targets x s = Inl IndexError \<or>
        (\<exists>s'. first_row_step J K targets x s = Inr s')"
      using first_row_step_cases by blast
  qed
  then show ?thesis using init_table(1) [OF assms(1,2)] by (simp add: score1_fill_def)
qed

lemma getitem3_no_vocab: "getitem3 J 0 t u k = Inl IndexError"
  by (simp add: getitem3_def py_index_def)

lemma labels_readable_no_vocab: "labels_readable 0 U targets \<Longrightarrow> U \<le> 1"
  unfolding labels_readable_def list_all_iff
  by (cases "U \<le> 1") (auto dest: bspec [where x = 0])

lemma score1_no_vocab:
  assumes "broadcastable (ncols tp) (ncols pp)" "broadcast_dim (ncols tp) (ncols pp) = 0"
    "0 < nrows tp" "nrows pp = 1"
  shows "transducer_forward_score1 tp pp targets = Inl IndexError"
proof (cases "nrows tp = 1")
  case True
  then show ?thesis using assms
    by (simp add: transducer_forward_score1_def joint_probs_def getitem3_no_vocab Let_def
        score1_fill_def init_table(1))
next
  case False
  then have "[1..<nrows tp] = 1 # [Suc 1..<nrows tp]" using assms(3) by (simp add: upt_conv_Cons)
  then have "foldE (outer_step J 0 1 targets) [1..<nrows tp] a = Inl IndexError" for J a
    by (simp add: outer_step_def getitem3_no_vocab)
  then have "score1_fill J 0 (nrows tp) 1 targets = Inl IndexError" for J
    using init_table(1) [of "nrows tp" 1] assms(3) by (simp add: score1_fill_def)
  then show ?thesis using assms
    by (simp add: transducer_forward_score1_def joint_probs_def Let_def)
qed

lemma score1_raises_broadcast:
  "\<not> broadcastable (ncols tp) (ncols pp) \<Longrightarrow>
     transducer_forward_score1 tp pp targets = Inl BroadcastError"
  by (simp add: transducer_forward_score1_def joint_probs_def Let_def)

lemma score1_raises_index:
  assumes bc: "broadcastable (ncols tp) (ncols pp)"
    and bad: "nrows tp = 0 \<or> nrows pp = 0 \<or> broadcast_dim (ncols tp) (ncols pp) = 0 \<or>
       \<not> labels_readable (broadcast_dim (ncols tp) (ncols pp)) (nrows pp) targets"
  shows "transducer_forward_score1 tp pp targets = Inl IndexError"
proof (cases "nrows tp = 0 \<or> nrows pp = 0")
  case True
  then show ?thesis using bc score1_fill_empty [of "nrows tp" "nrows pp"]
    by (simp add: transducer_forward_score1_def joint_probs_def Let_def)
next
  case False
  let ?K = "broadcast_dim (ncols tp) (ncols pp)"
  from False have pos: "0 < nrows tp" "0 < nrows pp" by simp_all
  show ?thesis
  proof (cases "labels_readable ?K (nrows pp) targets")
    case False
    then show ?thesis using bc score1_fill_bad_label [OF pos False]
      by (simp add: transducer_forward_score1_def joint_probs_def Let_def)
  next
    case True
    then have K0: "?K = 0" using bad pos by simp
    then have "nrows pp = 1" using labels_readable_no_vocab [of "nrows pp" targets] True pos by simp
    then show ?thesis using score1_no_vocab [OF bc K0 pos(1)] by simp
  qed
qed

lemma score1_succeeds:
  assumes "broadcastable (ncols tp) (ncols pp)" "0 < nrows tp" "0 < nrows pp"
    and "0 < broadcast_dim (ncols tp) (ncols pp)"
    and "labels_readable (broadcast_dim (ncols tp) (ncols pp)) (nrows pp) targets"
  shows "\<exists>score. transducer_forward_score1 tp pp targets = Inr score"
proof -
  let ?K = "broadcast_dim (ncols tp) (ncols pp)"
  obtain kk where kk: "\<And>u. Suc u < nrows pp \<Longrightarrow> symbol_index ?K targets u = Inr (kk u)"
    using labels_readable_symbol [OF assms(5)] by blast
  obtain a where "score1_fill (prob_lattice tp pp) ?K (nrows tp) (nrows pp) targets = Inr a"
    using score1_fill_correct [OF kk assms(2,3,4)] by blast
  then show ?thesis using assms(1,4)
    by (simp add: transducer_forward_score1_def joint_probs_def Let_def getitem3_blank)
qed

lemma score1_succeeds_valid:
  assumes "ncols pp = ncols tp" "0 < nrows tp" "0 < nrows pp" "length targets = nrows pp"
    and "list_all (\<lambda>y. 0 \<le> y \<and> y < int (ncols tp)) targets"
  shows "\<exists>score. transducer_forward_score1 tp pp targets = Inr score"
proof -
  have bc: "broadcastable (ncols tp) (ncols pp)" "broadcast_dim (ncols tp) (ncols pp) = ncols tp"
    using assms(1) by (simp_all add: broadcastable_def broadcast_dim_def)
  have in_range: "\<forall>u<length targets. 0 \<le> targets ! u \<and> targets ! u < int (ncols tp)"
    using assms(5) unfolding list_all_length by simp
  then have "0 < ncols tp" using assms(3,4) by (cases "ncols tp") (auto dest: spec [where x = 0])
  moreover have "labels_readable (ncols tp) (nrows pp) targets"
    unfolding labels_readable_def list_all_iff
  proof
    fix u assume "u \<in> set [0..<nrows pp - 1]"
    then have u: "u < length targets" using assms(4) by simp
    then have "0 \<le> targets ! u \<and> targets ! u < int (ncols tp)" using in_range by blast
    then show "u < length targets \<and> - int (ncols tp) \<le> targets ! u \<and> targets ! u < int (ncols tp)"
      using u by simp
  qed
  ultimately show ?thesis using score1_succeeds [of tp pp targets] bc assms(2,3) by simp
qed

lemma example_shapes [simp]:
  "nrows narrow_tp = 1" "ncols narrow_tp = 1" "nrows wide_pp = 1" "ncols wide_pp = 3"
  "nrows empty_pp = 0" "ncols empty_pp = 4"
  by (simp_all add: narrow_tp_def wide_pp_def empty_pp_def)

lemma wrapped_labels_readable: "labels_readable 4 3 [- 1, 1, 7]"
  by (simp add: labels_readable_def upt_conv_Cons)

section \<open>The scans unroll the recurrence\<close>

lemma cumprod_length [simp]: "length (cumprod xs) = length xs"
  by (simp add: cumprod_def)

lemma cumsum_length [simp]: "length (cumsum xs) = length xs"
  by (simp add: cumsum_def)

lemma scanrec_length [simp]: "length (scanrec A B) = length A"
  by (simp add: scanrec_def)

lemma scanrec_log_length [simp]: "length (scanrec_log A B) = length A"
  by (simp add: scanrec_log_def)

lemma cumprod_nth: "u < length xs \<Longrightarrow> cumprod xs ! u = prod_list (take (Suc u) xs)"
  by (simp add: cumprod_def del: upt_Suc take_Suc_Cons)

lemma scanrec_nth:
  "u < length A \<Longrightarrow> scanrec A B ! u =
     B ! 0 * prod_list (take (Suc u) A) +
     (\<Sum>k\<leftarrow>[1..<Suc u]. B ! k * prod_list (drop (Suc k) (take (Suc u) A)))"
  by (simp add: scanrec_def del: upt_Suc take_Suc_Cons)

lemma cumprod_0: "0 < length xs \<Longrightarrow> cumprod xs ! 0 = xs ! 0"
  by (simp add: cumprod_nth take_Suc_conv_app_nth [of 0])

lemma cumprod_Suc:
  "Suc u < length xs \<Longrightarrow> cumprod xs ! Suc u = cumprod xs ! u * xs ! Suc u"
  by (simp add: cumprod_nth take_Suc_conv_app_nth [of "Suc u"] del: take_Suc_Cons)

lemma scanrec_0: "0 < length A \<Longrightarrow> scanrec A B ! 0 = B ! 0 * A ! 0"
  by (simp add: scanrec_nth take_Suc_conv_app_nth [of 0])

lemma scan_term_Suc:
  assumes "Suc u < length A" "k \<le> u"
  shows "drop (Suc k) (take (Suc (Suc u)) A) = drop (Suc k) (take (Suc u) A) @ [A ! Suc u]"
  using assms by (simp add: take_Suc_conv_app_nth [of "Suc u"])

lemma scanrec_Suc:
  assumes "Suc u < length A"
  shows "scanrec A B ! Suc u = A ! Suc u * scanrec A B ! u + B ! Suc u"
proof -
  let ?f = "\<lambda>n k. B ! k * prod_list (drop (Suc k) (take (Suc n) A))"
  have t: "take (Suc (Suc u)) A = take (Suc u) A @ [A ! Suc u]"
    using assms by (simp add: take_Suc_conv_app_nth [of "Suc u"])
  have "(\<Sum>k\<leftarrow>[1..<Suc (Suc u)]. ?f (Suc u) k) = (\<Sum>k\<leftarrow>[1..<Suc u]. ?f (Suc u) k) + ?f (Suc u) (Suc u)"
    by simp
  also have "(\<Sum>k\<leftarrow>[1..<Suc u]. ?f (Suc u) k) = (\<Sum>k\<leftarrow>[1..<Suc u]. A ! Suc u * ?f u k)"
  proof (rule arg_cong [where f = sum_list], rule map_cong [OF refl])
    fix k assume "k \<in> set [1..<Suc u]"
    then have "k \<le> u" by auto
    then show "?f (Suc u) k = A ! Suc u * ?f u k"
      unfolding scan_term_Suc [OF assms \<open>k \<le> u\<close>] by simp
  qed
  also have "\<dots> = A ! Suc u * (\<Sum>k\<leftarrow>[1..<Suc u]. ?f u k)"
    by (simp add: sum_list_const_mult)
  also have "?f (Suc u) (Suc u) = B ! Suc u" using assms by simp
  finally have s: "(\<Sum>k\<leftarrow>[1..<Suc (Suc u)]. ?f (Suc u) k) =
      A ! Suc u * (\<Sum>k\<leftarrow>[1..<Suc u]. ?f u k) + B ! Suc u" .
  have "scanrec A B ! Suc u =
      B ! 0 * prod_list (take (Suc (Suc u)) A) + (\<Sum>k\<leftarrow>[1..<Suc (Suc u)]. ?f (Suc u) k)"
    using assms by (simp add: scanrec_nth del: upt_Suc take_Suc_Cons)
  also have "\<dots> = A ! Suc u * (B ! 0 * prod_list (take (Suc u) A) + (\<Sum>k\<leftarrow>[1..<Suc u]. ?f u k)) + B ! Suc u"
  proof -
    have "B ! 0 * prod_list (take (Suc (Suc u)) A) = A ! Suc u * (B ! 0 * prod_list (take (Suc u) A))"
      unfolding t by simp
    then show ?thesis unfolding s by (simp only: distrib_left add.assoc)
  qed
  also have "B ! 0 * prod_list (take (Suc u) A) + (\<Sum>k\<leftarrow>[1..<Suc u]. ?f u k) = scanrec A B ! u"
    using assms by (simp add: scanrec_nth del: upt_Suc take_Suc_Cons)
  finally show ?thesis .
qed

lemma exp_sum_list: "exp (sum_list xs) = prod_list (map exp (xs :: real list))"
  by (induction xs) (simp_all add: exp_add)

lemma cumsum_exp:
  "u < length xs \<Longrightarrow> exp (cumsum xs ! u) = cumprod (map exp xs) ! u"
  by (simp add: cumsum_def cumprod_def exp_sum_list take_map del: upt_Suc take_Suc_Cons)

lemma sum_list_exp_pos: "0 \<le> (\<Sum>k\<leftarrow>ks. exp (f k :: real))"
  by (induction ks) (simp_all add: add_nonneg_nonneg)

lemma scanrec_log_exp:
  assumes "u < length A" "length B = length A"
  shows "exp (scanrec_log A B ! u) = scanrec (map exp A) (map exp B) ! u"
proof -
  let ?S = "exp (B ! 0 + sum_list (take (Suc u) A)) +
      (\<Sum>k\<leftarrow>[1..<Suc u]. exp (B ! k + sum_list (drop (Suc k) (take (Suc u) A))))"
  have pos: "0 < ?S"
    using sum_list_exp_pos [of "\<lambda>k. B ! k + sum_list (drop (Suc k) (take (Suc u) A))" "[1..<Suc u]"]
    by (simp add: add_pos_nonneg del: upt_Suc)
  have l: "exp (scanrec_log A B ! u) = ?S"
    using assms(1) pos by (simp add: scanrec_log_def del: upt_Suc take_Suc_Cons)
  have "(\<Sum>k\<leftarrow>[1..<Suc u]. exp (B ! k + sum_list (drop (Suc k) (take (Suc u) A)))) =
      (\<Sum>k\<leftarrow>[1..<Suc u]. map exp B ! k * prod_list (drop (Suc k) (take (Suc u) (map exp A))))"
  proof (rule arg_cong [where f = sum_list], rule map_cong [OF refl])
    fix k assume "k \<in> set [1..<Suc u]"
    then have "k < length B" using assms by auto
    then show "exp (B ! k + sum_list (drop (Suc k) (take (Suc u) A))) =
        map exp B ! k * prod_list (drop (Suc k) (take (Suc u) (map exp A)))"
      by (simp add: exp_add exp_sum_list take_map drop_map del: take_Suc_Cons)
  qed
  moreover have "exp (B ! 0 + sum_list (take (Suc u) A)) =
      map exp B ! 0 * prod_list (take (Suc u) (map exp A))"
  proof -
    have "0 < length B" using assms by (cases A) auto
    then show ?thesis by (simp add: exp_add exp_sum_list take_map del: take_Suc_Cons)
  qed
  ultimately show ?thesis
    unfolding l using assms(1) by (simp add: scanrec_nth del: upt_Suc take_Suc_Cons)
qed

section \<open>The vectorised variants fill the table by the recurrence\<close>

lemma scanrec_row:
  assumes len: "length A = U" "length B = U"
    and A0: "A ! 0 = 1" and AS: "\<And>u. Suc u < U \<Longrightarrow> A ! Suc u = s (Suc t) u"
    and B: "\<And>u. u < U \<Longrightarrow> B ! u = alpha_rec b s t u * b t u"
  shows "u < U \<Longrightarrow> scanrec A B ! u = alpha_rec b s (Suc t) u"
proof (induction u)
  case 0
  then show ?case using scanrec_0 [of A B] len A0 B [of 0] by simp
next
  case (Suc u)
  then have "scanrec A B ! u = alpha_rec b s (Suc t) u" by simp
  then show ?case
    using scanrec_Suc [of u A B] len Suc.prems AS [of u] B [of "Suc u"] by (simp add: mult.commute)
qed

lemma cumprod_row:
  assumes len: "length A = U"
    and A0: "A ! 0 = 1" and AS: "\<And>u. Suc u < U \<Longrightarrow> A ! Suc u = s 0 u"
  shows "u < U \<Longrightarrow> cumprod A ! u = alpha_rec b s 0 u"
proof (induction u)
  case 0
  then show ?case using cumprod_0 [of A] len A0 by simp
next
  case (Suc u)
  then have "cumprod A ! u = alpha_rec b s 0 u" by simp
  then show ?case using cumprod_Suc [of u A] len Suc.prems AS [of u] by simp
qed

lemma targets_ok_nth:
  "targets_ok K U targets \<Longrightarrow> u < U \<Longrightarrow> 0 \<le> targets ! u \<and> targets ! u < int K"
  unfolding targets_ok_def list_all_length by simp

lemma gather_labels_ok:
  assumes "targets_ok K U targets" "length rows = U"
  shows "gather_labels K rows targets = Inr (map2 (\<lambda>r y. r ! nat y) rows targets)"
  using assms by (simp add: gather_labels_def targets_ok_def)

lemma shifted_gather:
  assumes "targets_ok K U targets" "length rows = U" "0 < U"
  shows "length (c # butlast (map2 (\<lambda>r y. r ! nat y) rows targets)) = U"
    and "(c # butlast (map2 (\<lambda>r y. r ! nat y) rows targets)) ! 0 = c"
    and "\<And>u. Suc u < U \<Longrightarrow>
      (c # butlast (map2 (\<lambda>r y. r ! nat y) rows targets)) ! Suc u = rows ! u ! nat (targets ! u)"
proof -
  have l: "length targets = U" using assms(1) by (simp add: targets_ok_def)
  show "length (c # butlast (map2 (\<lambda>r y. r ! nat y) rows targets)) = U"
    using l assms(2,3) by simp
  show "(c # butlast (map2 (\<lambda>r y. r ! nat y) rows targets)) ! 0 = c" by simp
  show "\<And>u. Suc u < U \<Longrightarrow>
      (c # butlast (map2 (\<lambda>r y. r ! nat y) rows targets)) ! Suc u = rows ! u ! nat (targets ! u)"
    using l assms(2) by (simp add: nth_butlast)
qed

lemma table_upto_setrow:
  assumes "table_upto al T U n 0 a" "n < T" "length row = U" "\<And>u. u < U \<Longrightarrow> row ! u = al n u"
  shows "table_upto al T U (Suc n) 0 (a[n := row])"
  using assms unfolding table_upto_def by (auto simp: nth_list_update less_Suc_eq)

lemma setrow_same: "length v = length (a ! t) \<Longrightarrow> setrow a t v = Inr (a[t := v])"
  by (simp add: setrow_def)

lemma lattice_row_blank_ok:
  "0 < K \<Longrightarrow> lattice_row_blank J K t = Inr (map (\<lambda>r. r ! 0) (J ! t))"
  by (simp add: lattice_row_blank_def py_index_blank)

lemma score2_step_ok:
  assumes shape: "lattice_shape J T U" and ok: "targets_ok K U targets"
    and pos: "0 < U" "0 < K" and n: "Suc n < T"
    and inv: "table_upto (alpha_rec (\<lambda>t u. J ! t ! u ! 0) (\<lambda>t u. J ! t ! u ! nat (targets ! u))) T U (Suc n) 0 a"
  shows "\<exists>a'. score2_step J K targets (Suc n) a = Inr a' \<and>
     table_upto (alpha_rec (\<lambda>t u. J ! t ! u ! 0) (\<lambda>t u. J ! t ! u ! nat (targets ! u))) T U (Suc (Suc n)) 0 a'"
proof -
  let ?b = "\<lambda>t u. J ! t ! u ! 0"
  let ?s = "\<lambda>t u. J ! t ! u ! nat (targets ! u)"
  let ?g = "map2 (\<lambda>r y. r ! nat y) (J ! Suc n) targets"
  let ?A = "1 # butlast ?g"
  let ?B = "map2 (*) (a ! n) (map (\<lambda>r. r ! 0) (J ! n))"
  have lenJ: "length (J ! n) = U" "length (J ! Suc n) = U"
    using shape n unfolding lattice_shape_def by simp_all
  have lena: "length (a ! n) = U" "length (a ! Suc n) = U"
    and prev: "\<And>u. u < U \<Longrightarrow> a ! n ! u = alpha_rec ?b ?s n u"
    using inv n unfolding table_upto_def by simp_all
  note A = shifted_gather [OF ok lenJ(2) pos(1), where c = 1]
  have B: "length ?B = U" "\<And>u. u < U \<Longrightarrow> ?B ! u = alpha_rec ?b ?s n u * ?b n u"
    using lenJ lena prev by simp_all
  have row: "\<And>u. u < U \<Longrightarrow> scanrec ?A ?B ! u = alpha_rec ?b ?s (Suc n) u"
    by (rule scanrec_row [OF A(1) B(1) A(2)]) (use A(3) B(2) in auto)
  have "score2_step J K targets (Suc n) a = Inr (a[Suc n := scanrec ?A ?B])"
    unfolding score2_step_def
    using lattice_row_blank_ok [OF pos(2)] gather_labels_ok [OF ok lenJ(2)] A(1) lena(2)
    by (simp add: Let_def setrow_same)
  moreover have "table_upto (alpha_rec ?b ?s) T U (Suc (Suc n)) 0 (a[Suc n := scanrec ?A ?B])"
    by (rule table_upto_setrow [OF inv n]) (use A(1) row in auto)
  ultimately show ?thesis by blast
qed

lemma score2_fill_correct:
  assumes shape: "lattice_shape J T U" and ok: "targets_ok K U targets"
    and pos: "0 < T" "0 < U" "0 < K"
  shows "\<exists>a. score2_fill J K T U targets = Inr a \<and>
     table_upto (alpha_rec (\<lambda>t u. J ! t ! u ! 0) (\<lambda>t u. J ! t ! u ! nat (targets ! u))) T U T 0 a"
proof -
  let ?b = "\<lambda>t u. J ! t ! u ! 0"
  let ?s = "\<lambda>t u. J ! t ! u ! nat (targets ! u)"
  let ?al = "alpha_rec ?b ?s"
  let ?g = "map2 (\<lambda>r y. r ! nat y) (J ! 0) targets"
  let ?A = "1 # butlast ?g"
  let ?a0 = "(new_zeros T U)[0 := cumprod ?A]"
  have lenJ: "length (J ! 0) = U" using shape pos(1) unfolding lattice_shape_def by simp
  note A = shifted_gather [OF ok lenJ pos(2), where c = 1]
  have z: "table_upto ?al T U 0 0 (new_zeros T U)"
    by (simp add: table_upto_def new_zeros_def new_full_def)
  have row: "\<And>u. u < U \<Longrightarrow> cumprod ?A ! u = ?al 0 u"
    by (rule cumprod_row [OF A(1) A(2)]) (use A(3) in auto)
  have a0: "table_upto ?al T U 1 0 ?a0"
    using table_upto_setrow [OF z pos(1), of "cumprod ?A"] A(1) row by simp
  have set0: "setrow (new_zeros T U) 0 (cumprod ?A) = Inr ?a0"
    using A(1) pos(1) by (simp add: setrow_same new_zeros_def new_full_def)
  have loop: "\<exists>a'. foldE (score2_step J K targets) [1..<T] ?a0 = Inr a' \<and> table_upto ?al T U T 0 a'"
  proof (rule foldE_upt_rule [where P = "\<lambda>i. table_upto ?al T U i 0"])
    fix i a assume i: "1 \<le> i" "i < T" and inv: "table_upto ?al T U i 0 a"
    obtain n where n: "i = Suc n" using i by (cases i) auto
    show "\<exists>s'. score2_step J K targets i a = Inr s' \<and> table_upto ?al T U (Suc i) 0 s'"
      using score2_step_ok [OF shape ok pos(2,3), of n a] i inv unfolding n by simp
  next
    show "1 \<le> T" using pos(1) by simp
    show "table_upto ?al T U 1 0 ?a0" by (rule a0)
  qed
  show ?thesis
    unfolding score2_fill_def
    using gather_labels_ok [OF ok lenJ] set0 loop pos(1)
    by (simp add: Let_def lattice_row_def)
qed

subsection \<open>Log domain, row by row\<close>

lemma log_table_upto_setrow:
  assumes "log_table_upto al T U n a" "n < T" "length row = U"
    "\<And>u. u < U \<Longrightarrow> exp (row ! u) = al n u"
  shows "log_table_upto al T U (Suc n) (a[n := row])"
  using assms unfolding log_table_upto_def by (auto simp: nth_list_update less_Suc_eq)

lemma score3_step_ok:
  assumes shape: "lattice_shape L T U" and ok: "targets_ok K U targets"
    and pos: "0 < U" "0 < K" and n: "Suc n < T"
    and rel: "log_of L targets T U b s"
    and inv: "log_table_upto (alpha_rec b s) T U (Suc n) a"
  shows "\<exists>a'. score3_step L K targets (Suc n) a = Inr a' \<and>
     log_table_upto (alpha_rec b s) T U (Suc (Suc n)) a'"
proof -
  let ?g = "map2 (\<lambda>r y. r ! nat y) (L ! Suc n) targets"
  let ?A = "0 # butlast ?g"
  let ?B = "map2 (+) (a ! n) (map (\<lambda>r. r ! 0) (L ! n))"
  have lenL: "length (L ! n) = U" "length (L ! Suc n) = U"
    using shape n unfolding lattice_shape_def by simp_all
  have lena: "length (a ! n) = U" "length (a ! Suc n) = U"
    and prev: "\<And>u. u < U \<Longrightarrow> exp (a ! n ! u) = alpha_rec b s n u"
    using inv n unfolding log_table_upto_def by simp_all
  note A = shifted_gather [OF ok lenL(2) pos(1), where c = 0]
  have r: "\<And>u. u < U \<Longrightarrow> exp (L ! n ! u ! 0) = b n u"
      "\<And>u. u < U \<Longrightarrow> exp (L ! Suc n ! u ! nat (targets ! u)) = s (Suc n) u"
    using rel n unfolding log_of_def by simp_all
  have eA: "length (map exp ?A) = U" "map exp ?A ! 0 = 1"
    "\<And>u. Suc u < U \<Longrightarrow> map exp ?A ! Suc u = s (Suc n) u"
  proof -
    show "length (map exp ?A) = U" using A(1) by simp
    show "map exp ?A ! 0 = 1" by simp
    fix u assume u: "Suc u < U"
    then have "map exp ?A ! Suc u = exp (?A ! Suc u)" using A(1) by (simp del: list.map nth_Cons_Suc)
    then show "map exp ?A ! Suc u = s (Suc n) u" using A(3) [OF u] r(2) [of u] u by simp
  qed
  have B: "length ?B = U" using lenL lena by simp
  have eB: "length (map exp ?B) = U" "\<And>u. u < U \<Longrightarrow> map exp ?B ! u = alpha_rec b s n u * b n u"
    using lenL lena prev r(1) by (simp_all add: exp_add)
  have row: "\<And>u. u < U \<Longrightarrow> exp (scanrec_log ?A ?B ! u) = alpha_rec b s (Suc n) u"
  proof -
    fix u assume u: "u < U"
    have "exp (scanrec_log ?A ?B ! u) = scanrec (map exp ?A) (map exp ?B) ! u"
      by (rule scanrec_log_exp) (use u A(1) B in auto)
    also have "\<dots> = alpha_rec b s (Suc n) u"
      by (rule scanrec_row [OF eA(1) eB(1) eA(2)]) (use eA(3) eB(2) u in auto)
    finally show "exp (scanrec_log ?A ?B ! u) = alpha_rec b s (Suc n) u" .
  qed
  have "score3_step L K targets (Suc n) a = Inr (a[Suc n := scanrec_log ?A ?B])"
    unfolding score3_step_def
    using lattice_row_blank_ok [OF pos(2)] gather_labels_ok [OF ok lenL(2)] A(1) lena(2)
    by (simp add: Let_def setrow_same)
  moreover have "log_table_upto (alpha_rec b s) T U (Suc (Suc n)) (a[Suc n := scanrec_log ?A ?B])"
    by (rule log_table_upto_setrow [OF inv n]) (use A(1) row in auto)
  ultimately show ?thesis by blast
qed

lemma score3_fill_correct:
  assumes shape: "lattice_shape L T U" and ok: "targets_ok K U targets"
    and pos: "0 < T" "0 < U" "0 < K"
    and rel: "log_of L targets T U b s"
  shows "\<exists>a. score3_fill L K T U targets = Inr a \<and> log_table_upto (alpha_rec b s) T U T a"
proof -
  let ?al = "alpha_rec b s"
  let ?g = "map2 (\<lambda>r y. r ! nat y) (L ! 0) targets"
  let ?A = "0 # butlast ?g"
  let ?z = "new_full T U float_min"
  let ?a0 = "?z[0 := cumsum ?A]"
  have lenL: "length (L ! 0) = U" using shape pos(1) unfolding lattice_shape_def by simp
  note A = shifted_gather [OF ok lenL pos(2), where c = 0]
  have r: "\<And>u. u < U \<Longrightarrow> exp (L ! 0 ! u ! nat (targets ! u)) = s 0 u"
    using rel pos(1) unfolding log_of_def by simp
  have eA: "length (map exp ?A) = U" "map exp ?A ! 0 = 1"
    "\<And>u. Suc u < U \<Longrightarrow> map exp ?A ! Suc u = s 0 u"
  proof -
    show "length (map exp ?A) = U" using A(1) by simp
    show "map exp ?A ! 0 = 1" by simp
    fix u assume u: "Suc u < U"
    then have "map exp ?A ! Suc u = exp (?A ! Suc u)" using A(1) by (simp del: list.map nth_Cons_Suc)
    then show "map exp ?A ! Suc u = s 0 u" using A(3) [OF u] r [of u] u by simp
  qed
  have z: "log_table_upto ?al T U 0 ?z"
    by (simp add: log_table_upto_def new_full_def)
  have row: "\<And>u. u < U \<Longrightarrow> exp (cumsum ?A ! u) = ?al 0 u"
  proof -
    fix u assume u: "u < U"
    have "exp (cumsum ?A ! u) = cumprod (map exp ?A) ! u"
      by (rule cumsum_exp) (use u A(1) in auto)
    also have "\<dots> = ?al 0 u"
      by (rule cumprod_row [OF eA(1) eA(2)]) (use eA(3) u in auto)
    finally show "exp (cumsum ?A ! u) = ?al 0 u" .
  qed
  have a0: "log_table_upto ?al T U 1 ?a0"
    using log_table_upto_setrow [OF z pos(1), of "cumsum ?A"] A(1) row by simp
  have set0: "setrow ?z 0 (cumsum ?A) = Inr ?a0"
    using A(1) pos(1) by (simp add: setrow_same new_full_def)
  have loop: "\<exists>a'. foldE (score3_step L K targets) [1..<T] ?a0 = Inr a' \<and> log_table_upto ?al T U T a'"
  proof (rule foldE_upt_rule [where P = "\<lambda>i. log_table_upto ?al T U i"])
    fix i a assume i: "1 \<le> i" "i < T" and inv: "log_table_upto ?al T U i a"
    obtain n where n: "i = Suc n" using i by (cases i) auto
    show "\<exists>s'. score3_step L K targets i a = Inr s' \<and> log_table_upto ?al T U (Suc i) s'"
      using score3_step_ok [OF shape ok pos(2,3) _ rel, of n a] i inv unfolding n by simp
  next
    show "1 \<le> T" using pos(1) by simp
    show "log_table_upto ?al T U 1 ?a0" by (rule a0)
  qed
  show ?thesis
    unfolding score3_fill_def
    using gather_labels_ok [OF ok lenL] set0 loop pos(1)
    by (simp add: Let_def lattice_row_def)
qed

subsection \<open>Log domain, column by column\<close>

lemma scanrec_col:
  assumes len: "length A = T" "length B = T"
    and A0: "A ! 0 = 1" and AS: "\<And>t. Suc t < T \<Longrightarrow> A ! Suc t = b t (Suc m)"
    and B: "\<And>t. t < T \<Longrightarrow> B ! t = alpha_rec b s t m * s t m"
  shows "t < T \<Longrightarrow> scanrec A B ! t = alpha_rec b s t (Suc m)"
proof (induction t)
  case 0
  then show ?case using scanrec_0 [of A B] len A0 B [of 0] by simp
next
  case (Suc t)
  then have "scanrec A B ! t = alpha_rec b s t (Suc m)" by simp
  then show ?case
    using scanrec_Suc [of t A B] len Suc.prems AS [of t] B [of "Suc t"] by (simp add: mult.commute)
qed

lemma cumprod_col:
  assumes len: "length A = T"
    and A0: "A ! 0 = 1" and AS: "\<And>t. Suc t < T \<Longrightarrow> A ! Suc t = b t 0"
  shows "t < T \<Longrightarrow> cumprod A ! t = alpha_rec b s t 0"
proof (induction t)
  case 0
  then show ?case using cumprod_0 [of A] len A0 by simp
next
  case (Suc t)
  then have "cumprod A ! t = alpha_rec b s t 0" by simp
  then show ?case using cumprod_Suc [of t A] len Suc.prems AS [of t] by simp
qed

lemma shifted_column:
  assumes "length L = T" "0 < T"
  shows "length (c # butlast (map f L)) = T"
    and "(c # butlast (map f L)) ! 0 = c"
    and "\<And>t. Suc t < T \<Longrightarrow> (c # butlast (map f L)) ! Suc t = f (L ! t)"
  using assms by (simp_all add: nth_butlast)

lemma lattice_col_ok:
  assumes "u < U" "0 \<le> k" "k < int K"
  shows "lattice_col L U K u k = Inr (map (\<lambda>row. row ! u ! nat k) L)"
  using assms by (simp add: lattice_col_def py_index_def)

lemma setcol_same:
  "length v = length a \<Longrightarrow> setcol a u v = Inr (map2 (\<lambda>row x. row[u := x]) a v)"
  by (simp add: setcol_def)

lemma log_columns_upto_setcol:
  assumes "log_columns_upto al T U m a" "m < U" "length v = T"
    "\<And>t. t < T \<Longrightarrow> exp (v ! t) = al t m"
  shows "log_columns_upto al T U (Suc m) (map2 (\<lambda>row x. row[m := x]) a v)"
  using assms unfolding log_columns_upto_def
  by (auto simp: nth_list_update less_Suc_eq)

lemma score3_transposed_step_ok:
  assumes shape: "lattice_shape L T U" and ok: "targets_ok K U targets"
    and pos: "0 < T" "0 < K" and m: "Suc m < U"
    and rel: "log_of L targets T U b s"
    and inv: "log_columns_upto (alpha_rec b s) T U (Suc m) a"
  shows "\<exists>a'. score3_transposed_step L U K targets (Suc m) a = Inr a' \<and>
     log_columns_upto (alpha_rec b s) T U (Suc (Suc m)) a'"
proof -
  let ?y = "targets ! m"
  let ?sym = "map (\<lambda>row. row ! m ! nat ?y) L"
  let ?B = "map2 (+) (getcol a m) ?sym"
  let ?blank = "map (\<lambda>row. row ! Suc m ! nat 0) L"
  let ?A = "0 # butlast ?blank"
  have lenL: "length L = T" using shape unfolding lattice_shape_def by simp
  have lena: "length a = T"
    and prev: "\<And>t. t < T \<Longrightarrow> exp (a ! t ! m) = alpha_rec b s t m"
    using inv unfolding log_columns_upto_def by simp_all
  have y: "0 \<le> ?y" "?y < int K" "m < length targets"
    using targets_ok_nth [OF ok, of m] m ok by (simp_all add: targets_ok_def)
  have r: "\<And>t. t < T \<Longrightarrow> exp (L ! t ! Suc m ! 0) = b t (Suc m)"
      "\<And>t. t < T \<Longrightarrow> exp (L ! t ! m ! nat ?y) = s t m"
    using rel m unfolding log_of_def by simp_all
  note A = shifted_column [OF lenL pos(1), where c = 0 and f = "\<lambda>row. row ! Suc m ! nat 0"]
  have eA: "length (map exp ?A) = T" "map exp ?A ! 0 = 1"
    "\<And>t. Suc t < T \<Longrightarrow> map exp ?A ! Suc t = b t (Suc m)"
  proof -
    show "length (map exp ?A) = T" using A(1) by simp
    show "map exp ?A ! 0 = 1" by simp
    fix t assume t: "Suc t < T"
    then have "map exp ?A ! Suc t = exp (?A ! Suc t)" using A(1) by (simp del: list.map nth_Cons_Suc)
    then show "map exp ?A ! Suc t = b t (Suc m)" using A(3) [OF t] r(1) [of t] t by simp
  qed
  have B: "length ?B = T" using lenL lena by (simp add: getcol_def)
  have eB: "length (map exp ?B) = T"
    "\<And>t. t < T \<Longrightarrow> map exp ?B ! t = alpha_rec b s t m * s t m"
    using lenL lena prev r(2) by (simp_all add: exp_add getcol_def)
  have col: "\<And>t. t < T \<Longrightarrow> exp (scanrec_log ?A ?B ! t) = alpha_rec b s t (Suc m)"
  proof -
    fix t assume t: "t < T"
    have "exp (scanrec_log ?A ?B ! t) = scanrec (map exp ?A) (map exp ?B) ! t"
      by (rule scanrec_log_exp) (use t A(1) B in auto)
    also have "\<dots> = alpha_rec b s t (Suc m)"
      by (rule scanrec_col [OF eA(1) eB(1) eA(2)]) (use eA(3) eB(2) t in auto)
    finally show "exp (scanrec_log ?A ?B ! t) = alpha_rec b s t (Suc m)" .
  qed
  have c1: "lattice_col L U K m ?y = Inr ?sym"
    by (rule lattice_col_ok) (use m y in auto)
  have c2: "lattice_col L U K (Suc m) 0 = Inr ?blank"
    by (rule lattice_col_ok) (use m pos in auto)
  have "score3_transposed_step L U K targets (Suc m) a =
      Inr (map2 (\<lambda>row x. row[Suc m := x]) a (scanrec_log ?A ?B))"
    unfolding score3_transposed_step_def
    using c1 c2 y(3) A(1) lena
    by (simp add: Let_def target_at_def setcol_same)
  moreover have "log_columns_upto (alpha_rec b s) T U (Suc (Suc m))
      (map2 (\<lambda>row x. row[Suc m := x]) a (scanrec_log ?A ?B))"
    by (rule log_columns_upto_setcol [OF inv m]) (use A(1) col in auto)
  ultimately show ?thesis by blast
qed

lemma score3_transposed_fill_correct:
  assumes shape: "lattice_shape L T U" and ok: "targets_ok K U targets"
    and pos: "0 < T" "0 < U" "0 < K"
    and rel: "log_of L targets T U b s"
  shows "\<exists>a. score3_transposed_fill L K T U targets = Inr a \<and>
     log_columns_upto (alpha_rec b s) T U U a"
proof -
  let ?al = "alpha_rec b s"
  let ?blank = "map (\<lambda>row. row ! 0 ! nat 0) L"
  let ?A = "0 # butlast ?blank"
  let ?z = "new_full T U float_min"
  let ?a0 = "map2 (\<lambda>row x. row[0 := x]) ?z (cumsum ?A)"
  have lenL: "length L = T" using shape unfolding lattice_shape_def by simp
  note A = shifted_column [OF lenL pos(1), where c = 0 and f = "\<lambda>row. row ! 0 ! nat 0"]
  have r: "\<And>t. t < T \<Longrightarrow> exp (L ! t ! 0 ! 0) = b t 0"
    using rel pos(2) unfolding log_of_def by simp
  have eA: "length (map exp ?A) = T" "map exp ?A ! 0 = 1"
    "\<And>t. Suc t < T \<Longrightarrow> map exp ?A ! Suc t = b t 0"
  proof -
    show "length (map exp ?A) = T" using A(1) by simp
    show "map exp ?A ! 0 = 1" by simp
    fix t assume t: "Suc t < T"
    then have "map exp ?A ! Suc t = exp (?A ! Suc t)" using A(1) by (simp del: list.map nth_Cons_Suc)
    then show "map exp ?A ! Suc t = b t 0" using A(3) [OF t] r [of t] t by simp
  qed
  have z: "log_columns_upto ?al T U 0 ?z"
    by (simp add: log_columns_upto_def new_full_def)
  have col: "\<And>t. t < T \<Longrightarrow> exp (cumsum ?A ! t) = ?al t 0"
  proof -
    fix t assume t: "t < T"
    have "exp (cumsum ?A ! t) = cumprod (map exp ?A) ! t"
      by (rule cumsum_exp) (use t A(1) in auto)
    also have "\<dots> = ?al t 0"
      by (rule cumprod_col [OF eA(1) eA(2)]) (use eA(3) t in auto)
    finally show "exp (cumsum ?A ! t) = ?al t 0" .
  qed
  have a0: "log_columns_upto ?al T U 1 ?a0"
    using log_columns_upto_setcol [OF z pos(2), of "cumsum ?A"] A(1) col by simp
  have set0: "setcol ?z 0 (cumsum ?A) = Inr ?a0"
    using A(1) by (simp add: setcol_same new_full_def)
  have c0: "lattice_col L U K 0 0 = Inr ?blank"
    by (rule lattice_col_ok) (use pos in auto)
  have loop: "\<exists>a'. foldE (score3_transposed_step L U K targets) [1..<U] ?a0 = Inr a' \<and>
      log_columns_upto ?al T U U a'"
  proof (rule foldE_upt_rule [where P = "\<lambda>i. log_columns_upto ?al T U i"])
    fix i a assume i: "1 \<le> i" "i < U" and inv: "log_columns_upto ?al T U i a"
    obtain m where m: "i = Suc m" using i by (cases i) auto
    show "\<exists>s'. score3_transposed_step L U K targets i a = Inr s' \<and>
        log_columns_upto ?al T U (Suc i) s'"
      using score3_transposed_step_ok [OF shape ok pos(1,3) _ rel, of m a] i inv unfolding m by simp
  next
    show "1 \<le> U" using pos(2) by simp
    show "log_columns_upto ?al T U 1 ?a0" by (rule a0)
  qed
  show ?thesis
    unfolding score3_transposed_fill_def
    using c0 set0 loop by (simp add: Let_def)
qed

section \<open>All four variants compute the same mass\<close>

lemma prob_lattice_shape:
  assumes "wf_tensor2 tp" "wf_tensor2 pp"
  shows "lattice_shape (prob_lattice tp pp) (nrows tp) (nrows pp)"
  using assms by (simp add: lattice_shape_def prob_lattice_def lattice_sum_def wf_tensor2_def)

lemma log_lattice_shape:
  assumes "wf_tensor2 tp" "wf_tensor2 pp"
  shows "lattice_shape (log_lattice tp pp) (nrows tp) (nrows pp)"
  using assms by (simp add: lattice_shape_def log_lattice_def lattice_sum_def wf_tensor2_def)

lemma exp_log_softmax:
  assumes "k < length xs"
  shows "exp (log_softmax xs ! k) = softmax xs ! k"
proof -
  have "0 < (\<Sum>j<length xs. exp (xs ! j))" using assms by (intro exp_sum_pos) auto
  then show ?thesis using assms by (simp add: log_softmax_nth softmax_nth exp_diff)
qed

lemma log_lattice_log_of:
  assumes wf: "wf_tensor2 tp" "wf_tensor2 pp" and K: "ncols pp = ncols tp"
    and ok: "targets_ok (ncols tp) (nrows pp) targets" and pos: "0 < ncols tp"
  shows "log_of (log_lattice tp pp) targets (nrows tp) (nrows pp)
     (\<lambda>t u. prob_lattice tp pp ! t ! u ! 0) (\<lambda>t u. prob_lattice tp pp ! t ! u ! nat (targets ! u))"
  unfolding log_of_def
proof (intro allI impI)
  fix t u assume tu: "t < nrows tp" "u < nrows pp"
  have l: "length (lattice_sum tp pp ! t ! u) = ncols tp"
    using lattice_sum_length(3) [OF wf K tu] .
  have k: "nat (targets ! u) < ncols tp" using targets_ok_nth [OF ok tu(2)] by linarith
  show "exp (log_lattice tp pp ! t ! u ! 0) = prob_lattice tp pp ! t ! u ! 0 \<and>
      exp (log_lattice tp pp ! t ! u ! nat (targets ! u)) =
      prob_lattice tp pp ! t ! u ! nat (targets ! u)"
    unfolding log_lattice_nth [OF wf K tu] prob_lattice_nth [OF wf K tu]
    using exp_log_softmax l k pos by simp
qed

lemma targets_ok_labels_ok: "targets_ok K U targets \<Longrightarrow> labels_ok K U targets"
  unfolding targets_ok_def labels_ok_def list_all_length by auto

lemma targets_ok_vocab: "targets_ok K U targets \<Longrightarrow> 0 < U \<Longrightarrow> 0 < K"
  using targets_ok_nth [of K U targets 0] by (cases K) auto

lemma score1_mass:
  assumes "ncols pp = ncols tp" "0 < nrows tp" "0 < nrows pp"
    and "targets_ok (ncols tp) (nrows pp) targets"
  shows "transducer_forward_score1 tp pp targets = Inr (forward_mass tp pp targets)"
proof -
  have K: "0 < ncols tp" using targets_ok_vocab [OF assms(4,3)] .
  obtain a where a: "table_upto (alpha_rec (\<lambda>t u. prob_lattice tp pp ! t ! u ! 0)
        (\<lambda>t u. prob_lattice tp pp ! t ! u ! nat (targets ! u))) (nrows tp) (nrows pp) (nrows tp) 0 a"
     "transducer_forward_score1 tp pp targets =
       Inr (a ! (nrows tp - 1) ! (nrows pp - 1) * prob_lattice tp pp ! (nrows tp - 1) ! (nrows pp - 1) ! 0)"
    using score1_result [OF assms(1) K assms(2,3) targets_ok_labels_ok [OF assms(4)]] by blast
  show ?thesis
    unfolding a(2) forward_mass_def using a(1) assms(2,3) unfolding table_upto_def by simp
qed

lemma score2_mass:
  assumes "wf_tensor2 tp" "wf_tensor2 pp" "ncols pp = ncols tp" "0 < nrows tp" "0 < nrows pp"
    and "targets_ok (ncols tp) (nrows pp) targets"
  shows "transducer_forward_score2 tp pp targets = Inr (forward_mass tp pp targets)"
proof -
  have K: "0 < ncols tp" using targets_ok_vocab [OF assms(6,5)] .
  obtain a where a: "score2_fill (prob_lattice tp pp) (ncols tp) (nrows tp) (nrows pp) targets = Inr a"
    "table_upto (alpha_rec (\<lambda>t u. prob_lattice tp pp ! t ! u ! 0)
        (\<lambda>t u. prob_lattice tp pp ! t ! u ! nat (targets ! u))) (nrows tp) (nrows pp) (nrows tp) 0 a"
    using score2_fill_correct [OF prob_lattice_shape [OF assms(1,2)] assms(6,4,5) K] by blast
  have "a ! (nrows tp - 1) ! (nrows pp - 1) =
      alpha_rec (\<lambda>t u. prob_lattice tp pp ! t ! u ! 0)
        (\<lambda>t u. prob_lattice tp pp ! t ! u ! nat (targets ! u)) (nrows tp - 1) (nrows pp - 1)"
    using a(2) assms(4,5) unfolding table_upto_def by simp
  then show ?thesis
    using a(1) assms(3,5) K
    by (simp add: transducer_forward_score2_def joint_probs_def Let_def getitem3_blank get2_def
        forward_mass_def)
qed

lemma score3_mass:
  assumes "wf_tensor2 tp" "wf_tensor2 pp" "ncols pp = ncols tp" "0 < nrows tp" "0 < nrows pp"
    and "targets_ok (ncols tp) (nrows pp) targets"
  shows "\<exists>l. transducer_forward_score3 tp pp targets = Inr l \<and> exp l = forward_mass tp pp targets"
proof -
  let ?b = "\<lambda>t u. prob_lattice tp pp ! t ! u ! 0"
  let ?s = "\<lambda>t u. prob_lattice tp pp ! t ! u ! nat (targets ! u)"
  have K: "0 < ncols tp" using targets_ok_vocab [OF assms(6,5)] .
  note rel = log_lattice_log_of [OF assms(1,2,3,6) K]
  obtain a where a: "score3_fill (log_lattice tp pp) (ncols tp) (nrows tp) (nrows pp) targets = Inr a"
    "log_table_upto (alpha_rec ?b ?s) (nrows tp) (nrows pp) (nrows tp) a"
    using score3_fill_correct [OF log_lattice_shape [OF assms(1,2)] assms(6,4,5) K rel] by blast
  have 1: "exp (a ! (nrows tp - 1) ! (nrows pp - 1)) = alpha_rec ?b ?s (nrows tp - 1) (nrows pp - 1)"
    using a(2) assms(4,5) unfolding log_table_upto_def by simp
  have 2: "exp (log_lattice tp pp ! (nrows tp - 1) ! (nrows pp - 1) ! 0) = ?b (nrows tp - 1) (nrows pp - 1)"
    using rel assms(4,5) unfolding log_of_def by simp
  have "transducer_forward_score3 tp pp targets =
      Inr (a ! (nrows tp - 1) ! (nrows pp - 1) + log_lattice tp pp ! (nrows tp - 1) ! (nrows pp - 1) ! 0)"
    using a(1) assms(3,5) K
    by (simp add: transducer_forward_score3_def joint_log_def Let_def getitem3_blank get2_def)
  then show ?thesis using 1 2 by (simp add: exp_add forward_mass_def)
qed

lemma score3_transposed_mass:
  assumes "wf_tensor2 tp" "wf_tensor2 pp" "ncols pp = ncols tp" "0 < nrows tp" "0 < nrows pp"
    and "targets_ok (ncols tp) (nrows pp) targets"
  shows "\<exists>l. transducer_forward_score3_transposed tp pp targets = Inr l \<and>
     exp l = forward_mass tp pp targets"
proof -
  let ?b = "\<lambda>t u. prob_lattice tp pp ! t ! u ! 0"
  let ?s = "\<lambda>t u. prob_lattice tp pp ! t ! u ! nat (targets ! u)"
  have K: "0 < ncols tp" using targets_ok_vocab [OF assms(6,5)] .
  note rel = log_lattice_log_of [OF assms(1,2,3,6) K]
  obtain a where a:
    "score3_transposed_fill (log_lattice tp pp) (ncols tp) (nrows tp) (nrows pp) targets = Inr a"
    "log_columns_upto (alpha_rec ?b ?s) (nrows tp) (nrows pp) (nrows pp) a"
    using score3_transposed_fill_correct [OF log_lattice_shape [OF assms(1,2)] assms(6,4,5) K rel]
    by blast
  have 1: "exp (a ! (nrows tp - 1) ! (nrows pp - 1)) = alpha_rec ?b ?s (nrows tp - 1) (nrows pp - 1)"
    using a(2) assms(4,5) unfolding log_columns_upto_def by simp
  have 2: "exp (log_lattice tp pp ! (nrows tp - 1) ! (nrows pp - 1) ! 0) = ?b (nrows tp - 1) (nrows pp - 1)"
    using rel assms(4,5) unfolding log_of_def by simp
  have "transducer_forward_score3_transposed tp pp targets =
      Inr (a ! (nrows tp - 1) ! (nrows pp - 1) + log_lattice tp pp ! (nrows tp - 1) ! (nrows pp - 1) ! 0)"
    using a(1) assms(3,4) K
    by (simp add: transducer_forward_score3_transposed_def joint_log_def Let_def getitem3_blank get2_def)
  then show ?thesis using 1 2 by (simp add: exp_add forward_mass_def)
qed

lemma simple_targets_ok: "targets_ok 4 3 simple_targets"
  by (simp add: targets_ok_def simple_targets_def)

section \<open>The last target\<close>

lemma foldE_cong:
  "(\<And>x s. x \<in> set xs \<Longrightarrow> f x s = g x s) \<Longrightarrow> foldE f xs s = foldE g xs s"
  by (induction xs arbitrary: s) (auto split: sum.splits)

lemma nth_butlast_eq:
  assumes "length ta = length tb" "butlast ta = butlast tb" "Suc u < length ta"
  shows "ta ! u = tb ! u"
proof -
  have "ta ! u = butlast ta ! u" using assms(3) by (simp add: nth_butlast)
  also have "\<dots> = tb ! u" using assms by (simp add: nth_butlast)
  finally show ?thesis .
qed

lemma target_at_butlast:
  assumes "length ta = length tb" "butlast ta = butlast tb" "Suc u < length ta"
  shows "target_at ta u = target_at tb u"
  using nth_butlast_eq [OF assms] assms by (simp add: target_at_def)

lemma score1_fill_last_target:
  assumes "length ta = U" "length tb = U" "butlast ta = butlast tb"
  shows "score1_fill J K T U ta = score1_fill J K T U tb"
proof -
  have t: "\<And>u. Suc 0 \<le> u \<and> u < U \<Longrightarrow> target_at ta (u - Suc 0) = target_at tb (u - Suc 0)"
    using target_at_butlast [of ta tb] assms by simp
  have first: "foldE (first_row_step J K ta) [1..<U] = foldE (first_row_step J K tb) [1..<U]"
    by (rule ext, rule foldE_cong) (simp add: first_row_step_def t del: upt_Suc)
  have inner: "\<And>t. foldE (inner_step J K ta t) [1..<U] = foldE (inner_step J K tb t) [1..<U]"
    by (rule ext, rule foldE_cong) (simp add: inner_step_def t del: upt_Suc)
  have outer: "\<And>t a. outer_step J K U ta t a = outer_step J K U tb t a"
    unfolding outer_step_def inner by (rule refl)
  have outerf: "foldE (outer_step J K U ta) [1..<T] = foldE (outer_step J K U tb) [1..<T]"
    by (rule ext, rule foldE_cong) (rule outer)
  show ?thesis unfolding score1_fill_def first outerf by (rule refl)
qed

lemma score3_transposed_fill_last_target:
  assumes "length ta = U" "length tb = U" "butlast ta = butlast tb"
  shows "score3_transposed_fill J K T U ta = score3_transposed_fill J K T U tb"
proof -
  have t: "\<And>u. Suc 0 \<le> u \<and> u < U \<Longrightarrow> target_at ta (u - Suc 0) = target_at tb (u - Suc 0)"
    using target_at_butlast [of ta tb] assms by simp
  have loop: "foldE (score3_transposed_step J U K ta) [1..<U] =
      foldE (score3_transposed_step J U K tb) [1..<U]"
    by (rule ext, rule foldE_cong) (simp add: score3_transposed_step_def t del: upt_Suc)
  show ?thesis unfolding score3_transposed_fill_def loop by (rule refl)
qed

lemma list_all_butlast_last:
  "xs \<noteq> [] \<Longrightarrow> list_all P xs \<longleftrightarrow> list_all P (butlast xs) \<and> P (last xs)"
  using list_all_append [of P "butlast xs" "[last xs]"] by simp

lemma butlast_gather_eq:
  assumes "length ta = length tb" "butlast ta = butlast tb" "length ta \<le> length rows"
  shows "butlast (map2 f rows ta) = butlast (map2 f rows tb)"
proof (rule nth_equalityI)
  show "length (butlast (map2 f rows ta)) = length (butlast (map2 f rows tb))"
    using assms by simp
  fix i assume "i < length (butlast (map2 f rows ta))"
  then have i: "Suc i < length ta" using assms(3) by simp
  then have "ta ! i = tb ! i" using nth_butlast_eq [OF assms(1,2)] by simp
  then show "butlast (map2 f rows ta) ! i = butlast (map2 f rows tb) ! i"
    using i assms(1,3) by (simp add: nth_butlast)
qed

lemma gather_last_target:
  assumes "length ta = length tb" "butlast ta = butlast tb"
    and "in_vocab K (last ta)" "in_vocab K (last tb)"
  shows "bindE (gather_labels K rows ta) (\<lambda>g. F (butlast g)) =
     bindE (gather_labels K rows tb) (\<lambda>g. F (butlast g))"
proof (cases "ta = []")
  case True
  then show ?thesis using assms(1) by simp
next
  case False
  then have nb: "tb \<noteq> []" using assms(1) by auto
  have all: "list_all (\<lambda>y. 0 \<le> y \<and> y < int K) ta \<longleftrightarrow> list_all (\<lambda>y. 0 \<le> y \<and> y < int K) tb"
    using list_all_butlast_last [OF False] list_all_butlast_last [OF nb] assms(2,3,4)
    by (simp add: in_vocab_def)
  show ?thesis
  proof (cases "length rows < length ta")
    case True
    then show ?thesis using assms(1) by (simp add: gather_labels_def)
  next
    case False
    then have "length ta \<le> length rows" by simp
    then have "butlast (map2 (\<lambda>r y. r ! nat y) rows ta) = butlast (map2 (\<lambda>r y. r ! nat y) rows tb)"
      by (rule butlast_gather_eq [OF assms(1,2)])
    then show ?thesis using all assms(1) by (simp add: gather_labels_def)
  qed
qed

lemma score2_fill_last_target:
  assumes "length ta = length tb" "butlast ta = butlast tb"
    and "in_vocab K (last ta)" "in_vocab K (last tb)"
  shows "score2_fill J K T U ta = score2_fill J K T U tb"
proof -
  note g = gather_last_target [OF assms]
  have step: "score2_step J K ta = score2_step J K tb"
  proof (intro ext)
    fix t a
    show "score2_step J K ta t a = score2_step J K tb t a"
      unfolding score2_step_def Let_def
      by (rule arg_cong [where f = "bindE _"], rule ext) (rule g)
  qed
  show ?thesis
    unfolding score2_fill_def Let_def step
    by (rule arg_cong [where f = "bindE _"], rule ext)
       (rule g [where F = "\<lambda>bg. bindE (setrow (new_zeros T U) 0 (cumprod (1 # bg)))
          (foldE (score2_step J K tb) [1..<T])"])
qed

lemma score3_fill_last_target:
  assumes "length ta = length tb" "butlast ta = butlast tb"
    and "in_vocab K (last ta)" "in_vocab K (last tb)"
  shows "score3_fill J K T U ta = score3_fill J K T U tb"
proof -
  note g = gather_last_target [OF assms]
  have step: "score3_step J K ta = score3_step J K tb"
  proof (intro ext)
    fix t a
    show "score3_step J K ta t a = score3_step J K tb t a"
      unfolding score3_step_def Let_def
      by (rule arg_cong [where f = "bindE _"], rule ext) (rule g)
  qed
  show ?thesis
    unfolding score3_fill_def Let_def step
    by (rule arg_cong [where f = "bindE _"], rule ext)
       (rule g [where F = "\<lambda>bg. bindE (setrow (new_full T U float_min) 0 (cumsum (0 # bg)))
          (foldE (score3_step J K tb) [1..<T])"])
qed

lemma gather_labels_bad:
  assumes "\<not> list_all (\<lambda>y. 0 \<le> y \<and> y < int K) targets"
  shows "gather_labels K rows targets = Inl GatherError"
  using assms by (simp add: gather_labels_def)

lemma score2_bad_gather:
  assumes "broadcastable (ncols tp) (ncols pp)" "0 < nrows tp"
    and "\<not> list_all (\<lambda>y. 0 \<le> y \<and> y < int (broadcast_dim (ncols tp) (ncols pp))) targets"
  shows "transducer_forward_score2 tp pp targets = Inl GatherError"
  using assms
  by (simp add: transducer_forward_score2_def joint_probs_def score2_fill_def Let_def
      lattice_row_def gather_labels_bad)

lemma score3_bad_gather:
  assumes "broadcastable (ncols tp) (ncols pp)" "0 < nrows tp"
    and "\<not> list_all (\<lambda>y. 0 \<le> y \<and> y < int (broadcast_dim (ncols tp) (ncols pp))) targets"
  shows "transducer_forward_score3 tp pp targets = Inl GatherError"
  using assms
  by (simp add: transducer_forward_score3_def joint_log_def score3_fill_def Let_def
      lattice_row_def gather_labels_bad)

section \<open>A single column in the log domain\<close>

lemma score3_single_column:
  assumes "wf_tensor2 tp" "wf_tensor2 pp" "ncols pp = ncols tp" "0 < nrows tp" "nrows pp = 1"
    and "targets_ok (ncols tp) (nrows pp) targets"
  shows "transducer_forward_score3 tp pp targets =
     Inr (\<Sum>t<nrows tp. log_lattice tp pp ! t ! 0 ! 0)"
proof -
  let ?b = "\<lambda>t u. prob_lattice tp pp ! t ! u ! 0"
  have U: "0 < nrows pp" using assms(5) by simp
  have K: "0 < ncols tp" using targets_ok_vocab [OF assms(6) U] .
  obtain l where l: "transducer_forward_score3 tp pp targets = Inr l"
    "exp l = forward_mass tp pp targets"
    using score3_mass [OF assms(1,2,3,4) U assms(6)] by blast
  obtain n where n: "nrows tp = Suc n" using assms(4) by (cases "nrows tp") auto
  have rel: "\<And>t. t < nrows tp \<Longrightarrow> exp (log_lattice tp pp ! t ! 0 ! 0) = ?b t 0"
    using log_lattice_log_of [OF assms(1,2,3,6) K] assms(5) unfolding log_of_def by simp
  have "forward_mass tp pp targets = (\<Prod>t<nrows tp. ?b t 0)"
    using n assms(5) by (simp add: forward_mass_def alpha_rec_col0)
  also have "\<dots> = (\<Prod>t<nrows tp. exp (log_lattice tp pp ! t ! 0 ! 0))"
    by (rule prod.cong [OF refl, symmetric]) (simp add: rel)
  also have "\<dots> = exp (\<Sum>t<nrows tp. log_lattice tp pp ! t ! 0 ! 0)"
    by (simp add: exp_sum)
  finally have "exp l = exp (\<Sum>t<nrows tp. log_lattice tp pp ! t ! 0 ! 0)" using l(2) by simp
  then show ?thesis using l(1) by simp
qed

section \<open>The labels on the documented layout\<close>

lemma simple_first_cell:
  "prob_lattice simple_tp simple_pp ! 0 ! 0 =
     [exp 2 / (exp 2 + 3), 1 / (exp 2 + 3), 1 / (exp 2 + 3), 1 / (exp 2 + 3)]"
proof -
  have "prob_lattice simple_tp simple_pp ! 0 ! 0 = softmax (lattice_sum simple_tp simple_pp ! 0 ! 0)"
    by (rule prob_lattice_nth [OF simple_wf]) simp_all
  also have "lattice_sum simple_tp simple_pp ! 0 ! 0 = [2, 0, 0, 0]"
    by (simp add: lattice_sum_def simple_tp_def simple_pp_def broadcast_add_def)
  finally show ?thesis by (simp add: softmax_def)
qed

lemma simple_first_cell_differs:
  "prob_lattice simple_tp simple_pp ! 0 ! 0 ! 0 \<noteq> prob_lattice simple_tp simple_pp ! 0 ! 0 ! 1"
proof -
  have "exp (2::real) \<noteq> 1" by simp
  moreover have "0 < exp (2::real) + 3" by (simp add: add_pos_pos)
  ultimately show ?thesis unfolding simple_first_cell by simp
qed

lemma blank_prefix_labels_ok: "labels_ok 2 2 [0, 1]"
  by (simp add: labels_ok_def)

lemma blank_prefix_table:
  "\<exists>alpha. transducer_forward_alpha1 blank_tp blank_pp [0, 1] = Inr alpha \<and>
     alpha ! 1 ! 1 = 32 / 25 \<and>
     transducer_forward_score1 blank_tp blank_pp [0, 1] = Inr (128 / 125)"
proof -
  let ?b = "\<lambda>t u. prob_lattice blank_tp blank_pp ! t ! u ! 0"
  let ?s = "\<lambda>t u. prob_lattice blank_tp blank_pp ! t ! u ! nat ([0, 1] ! u)"
  have ok: "labels_ok (ncols blank_tp) (nrows blank_pp) [0, 1]" using blank_prefix_labels_ok by simp
  obtain a where a: "transducer_forward_alpha1 blank_tp blank_pp [0, 1] = Inr a"
    "table_upto (alpha_rec ?b ?s) 2 2 2 0 a"
    "transducer_forward_score1 blank_tp blank_pp [0, 1] = Inr (a ! 1 ! 1 * ?b 1 1)"
    using score1_result [of blank_pp blank_tp "[0, 1]", OF _ _ _ _ ok] by auto
  have "a ! 1 ! 1 = alpha_rec ?b ?s (Suc 0) (Suc 0)"
    using a(2) unfolding table_upto_def by simp
  also have "\<dots> = 32 / 25" by (simp add: blank_lattice)
  finally have e: "a ! 1 ! 1 = 32 / 25" .
  then have "transducer_forward_score1 blank_tp blank_pp [0, 1] = Inr (128 / 125)"
    using a(3) by (simp add: blank_lattice)
  then show ?thesis using a(1) e by blast
qed

lemma blank_prefix_spec_mass: "spec_forward_mass blank_tp blank_pp [0, 1] = 32 / 125"
proof -
  have "alpha_rec (\<lambda>t u. prob_lattice blank_tp blank_pp ! t ! u ! 0)
       (\<lambda>t u. prob_lattice blank_tp blank_pp ! t ! u ! nat ([0, 1] ! Suc u)) (Suc 0) (Suc 0) = 8 / 25"
    by (simp add: blank_lattice)
  then show ?thesis by (simp add: spec_forward_mass_def blank_lattice)
qed
section \<open>The claims\<close>

text \<open>
  C1. The claim is that \<open>transducer_forward_score1\<close> fills the alpha table by the
  recurrence of the specification, multiplying at each label step by the probability of
  the label that the specification says is consumed when the column advances. The source
  documents \<open>targets\<close> as an array of \<open>U\<close> entries whose first symbol is the
  blank, and its test passes \<open>[0, 1, 2]\<close>; the loops read \<open>targets[u-1]\<close> for the
  step from column \<open>u - 1\<close> to column \<open>u\<close>. On that layout the first label step
  consumes the leading blank, every later step consumes the label before the one it should,
  and the last label is never read. On the input of \<open>_test_simple\<close> the table has
  \<open>alpha[0,1] = alpha[0,0] * P(blank at (0,0))\<close>, which differs from
  \<open>alpha[0,0] * P(targets[1] at (0,0))\<close>; on a two-by-two lattice with blank
  probability 4/5 everywhere and targets \<open>[0, 1]\<close> the function returns 128/125 where
  the recurrence of the specification gives 32/125.
\<close>

theorem score1_consumes_leading_blank:
  "simple_targets ! 0 = 0 \<and>
   (\<exists>alpha. transducer_forward_alpha1 simple_tp simple_pp simple_targets = Inr alpha \<and>
      alpha ! 0 ! 0 = 1 \<and>
      alpha ! 0 ! 1 = alpha ! 0 ! 0 * prob_lattice simple_tp simple_pp ! 0 ! 0 ! 0 \<and>
      alpha ! 0 ! 1 \<noteq>
        alpha ! 0 ! 0 * prob_lattice simple_tp simple_pp ! 0 ! 0 ! nat (simple_targets ! 1)) \<and>
   transducer_forward_score1 blank_tp blank_pp [0, 1] = Inr (128 / 125) \<and>
   spec_forward_mass blank_tp blank_pp [0, 1] = 32 / 125"
proof -
  let ?J = "prob_lattice simple_tp simple_pp"
  let ?al = "alpha_rec (\<lambda>t u. ?J ! t ! u ! 0) (\<lambda>t u. ?J ! t ! u ! nat (simple_targets ! u))"
  have ok: "labels_ok (ncols simple_tp) (nrows simple_pp) simple_targets"
    using simple_labels_ok by simp
  obtain a where a: "transducer_forward_alpha1 simple_tp simple_pp simple_targets = Inr a"
    "table_upto ?al 4 3 4 0 a"
    using score1_result [of simple_pp simple_tp simple_targets, OF _ _ _ _ ok] by auto
  have 0: "a ! 0 ! 0 = 1" using a(2) unfolding table_upto_def by simp
  have "a ! 0 ! 1 = ?al 0 (Suc 0)" using a(2) unfolding table_upto_def by simp
  then have 1: "a ! 0 ! 1 = ?J ! 0 ! 0 ! 0" by (simp add: simple_targets_def)
  have 2: "a ! 0 ! 1 \<noteq> a ! 0 ! 0 * ?J ! 0 ! 0 ! nat (simple_targets ! 1)"
    unfolding 0 1 using simple_first_cell_differs by (simp add: simple_targets_def)
  have t: "simple_targets ! 0 = 0" by (simp add: simple_targets_def)
  obtain b where "transducer_forward_score1 blank_tp blank_pp [0, 1] = Inr (128 / 125)"
    using blank_prefix_table by blast
  then show ?thesis using a(1) 0 1 2 t blank_prefix_spec_mass by auto
qed

text \<open>
  C2. For well-formed inputs with \<open>T \<ge> 1\<close>, \<open>U \<ge> 1\<close>, equal \<open>K\<close> and all
  \<open>U\<close> targets in \<open>[0, K)\<close>, the time-major \<open>transducer_forward_score3\<close> and the
  label-major \<open>transducer_forward_score3_transposed\<close> both return a score, and it is the
  same real number. (With \<open>scanrec_log\<close> as modelled from the specification.)
\<close>

theorem score3_equals_score3_transposed:
  assumes "wf_tensor2 tp" "wf_tensor2 pp" "ncols pp = ncols tp" "0 < nrows tp" "0 < nrows pp"
    and "targets_ok (ncols tp) (nrows pp) targets"
  shows "\<exists>l. transducer_forward_score3 tp pp targets = Inr l \<and>
     transducer_forward_score3_transposed tp pp targets = Inr l"
proof -
  obtain l1 where l1: "transducer_forward_score3 tp pp targets = Inr l1"
    "exp l1 = forward_mass tp pp targets"
    using score3_mass [OF assms] by blast
  obtain l2 where l2: "transducer_forward_score3_transposed tp pp targets = Inr l2"
    "exp l2 = forward_mass tp pp targets"
    using score3_transposed_mass [OF assms] by blast
  have "exp l1 = exp l2" using l1(2) l2(2) by simp
  then have "l1 = l2" by simp
  then show ?thesis using l1(1) l2(1) by simp
qed

theorem score3_equals_score3_transposed_witness:
  "targets_ok (ncols simple_tp) (nrows simple_pp) simple_targets \<and>
   (\<exists>l. transducer_forward_score3 simple_tp simple_pp simple_targets = Inr l \<and>
     transducer_forward_score3_transposed simple_tp simple_pp simple_targets = Inr l)"
  using score3_equals_score3_transposed [of simple_tp simple_pp simple_targets] simple_wf
    simple_targets_ok
  by simp

text \<open>
  C3. For well-formed inputs with \<open>T \<ge> 1\<close>, \<open>U \<ge> 1\<close>, equal \<open>K\<close> and all
  \<open>U\<close> targets in \<open>[0, K)\<close>, the nested loops of \<open>transducer_forward_score1\<close> and
  the scan formulation \<open>transducer_forward_score2\<close> both return a score, and it is the
  same real number. (With \<open>scanrec\<close> as modelled from the specification.)
\<close>

theorem score1_equals_score2:
  assumes "wf_tensor2 tp" "wf_tensor2 pp" "ncols pp = ncols tp" "0 < nrows tp" "0 < nrows pp"
    and "targets_ok (ncols tp) (nrows pp) targets"
  shows "\<exists>score. transducer_forward_score1 tp pp targets = Inr score \<and>
     transducer_forward_score2 tp pp targets = Inr score"
  using score1_mass [OF assms(3,4,5,6)] score2_mass [OF assms] by simp

theorem score1_equals_score2_witness:
  "targets_ok (ncols simple_tp) (nrows simple_pp) simple_targets \<and>
   (\<exists>score. transducer_forward_score1 simple_tp simple_pp simple_targets = Inr score \<and>
     transducer_forward_score2 simple_tp simple_pp simple_targets = Inr score)"
  using score1_equals_score2 [of simple_tp simple_pp simple_targets] simple_wf simple_targets_ok
  by simp

text \<open>
  C4. For well-formed inputs with \<open>T \<ge> 1\<close>, \<open>U \<ge> 1\<close>, equal \<open>K\<close> and all
  \<open>U\<close> targets in \<open>[0, K)\<close>, \<open>transducer_forward_score1\<close> returns a probability
  \<open>p\<close>, \<open>transducer_forward_score3\<close> returns a log-score \<open>l\<close>, and
  \<open>p = exp l\<close>. (With \<open>scanrec_log\<close> as modelled from the specification.)
\<close>

theorem score1_is_exp_of_score3:
  assumes "wf_tensor2 tp" "wf_tensor2 pp" "ncols pp = ncols tp" "0 < nrows tp" "0 < nrows pp"
    and "targets_ok (ncols tp) (nrows pp) targets"
  shows "\<exists>p l. transducer_forward_score1 tp pp targets = Inr p \<and>
     transducer_forward_score3 tp pp targets = Inr l \<and> p = exp l"
  using score1_mass [OF assms(3,4,5,6)] score3_mass [OF assms] by auto

theorem score1_is_exp_of_score3_witness:
  "targets_ok (ncols simple_tp) (nrows simple_pp) simple_targets \<and>
   (\<exists>p l. transducer_forward_score1 simple_tp simple_pp simple_targets = Inr p \<and>
     transducer_forward_score3 simple_tp simple_pp simple_targets = Inr l \<and> p = exp l)"
  using score1_is_exp_of_score3 [of simple_tp simple_pp simple_targets] simple_wf simple_targets_ok
  by simp

text \<open>
  C5, as amended. \<open>transducer_forward_score1\<close> validates nothing and raises none of
  the named errors of the specification; what it raises comes from the tensor operations.
  It fails in the broadcast addition exactly when the two vocabulary sizes differ and
  neither is 1. When the addition succeeds, it fails with an index error exactly when
  \<open>T = 0\<close>, \<open>U = 0\<close>, \<open>K = 0\<close>, or one of the labels \<open>targets[0..U-2]\<close> is
  missing or outside \<open>[-K, K)\<close> (negative indices count from the end, and
  \<open>targets[U-1]\<close> is never read). In every other case it returns a score; in particular
  it returns a score on every input that satisfies the three contracts of the
  specification (equal \<open>K\<close>, \<open>T \<ge> 1\<close> and \<open>U \<ge> 1\<close>, all \<open>U\<close> targets in
  \<open>[0, K)\<close>). The counterexample shows a call with different vocabulary sizes and a call
  with targets outside \<open>[0, K)\<close> that both return a score.
\<close>

theorem score1_outcomes:
  "(\<not> broadcastable (ncols tp) (ncols pp) \<longrightarrow>
      transducer_forward_score1 tp pp targets = Inl BroadcastError) \<and>
   (broadcastable (ncols tp) (ncols pp) \<and>
      (nrows tp = 0 \<or> nrows pp = 0 \<or> broadcast_dim (ncols tp) (ncols pp) = 0 \<or>
       \<not> labels_readable (broadcast_dim (ncols tp) (ncols pp)) (nrows pp) targets) \<longrightarrow>
      transducer_forward_score1 tp pp targets = Inl IndexError) \<and>
   (broadcastable (ncols tp) (ncols pp) \<and> 0 < nrows tp \<and> 0 < nrows pp \<and>
      0 < broadcast_dim (ncols tp) (ncols pp) \<and>
      labels_readable (broadcast_dim (ncols tp) (ncols pp)) (nrows pp) targets \<longrightarrow>
      (\<exists>score. transducer_forward_score1 tp pp targets = Inr score)) \<and>
   (ncols pp = ncols tp \<and> 0 < nrows tp \<and> 0 < nrows pp \<and> length targets = nrows pp \<and>
      list_all (\<lambda>y. 0 \<le> y \<and> y < int (ncols tp)) targets \<longrightarrow>
      (\<exists>score. transducer_forward_score1 tp pp targets = Inr score))"
  using score1_raises_broadcast [of tp pp targets] score1_raises_index [of tp pp targets]
    score1_succeeds [of tp pp targets] score1_succeeds_valid [of pp tp targets]
  by blast

theorem score1_outcomes_witness:
  "transducer_forward_score1 simple_tp wide_pp simple_targets = Inl BroadcastError \<and>
   transducer_forward_score1 simple_tp empty_pp simple_targets = Inl IndexError \<and>
   transducer_forward_score1 simple_tp simple_pp [1, 4, 0] = Inl IndexError \<and>
   (\<exists>score. transducer_forward_score1 simple_tp simple_pp [- 1, 1, 7] = Inr score) \<and>
   (\<exists>score. transducer_forward_score1 simple_tp simple_pp simple_targets = Inr score)"
proof -
  have 1: "transducer_forward_score1 simple_tp wide_pp simple_targets = Inl BroadcastError"
    using score1_outcomes [of simple_tp wide_pp simple_targets]
    by (simp add: broadcastable_def)
  have 2: "transducer_forward_score1 simple_tp empty_pp simple_targets = Inl IndexError"
    using score1_outcomes [of simple_tp empty_pp simple_targets]
    by (simp add: broadcastable_def)
  have "\<not> labels_readable 4 3 [1, 4, 0]"
    by (simp add: labels_readable_def upt_conv_Cons)
  then have 3: "transducer_forward_score1 simple_tp simple_pp [1, 4, 0] = Inl IndexError"
    using score1_outcomes [of simple_tp simple_pp "[1, 4, 0]"]
    by (simp add: broadcastable_def broadcast_dim_def)
  have 4: "\<exists>score. transducer_forward_score1 simple_tp simple_pp [- 1, 1, 7] = Inr score"
    using score1_outcomes [of simple_tp simple_pp "[- 1, 1, 7]"] wrapped_labels_readable
    by (simp add: broadcastable_def broadcast_dim_def)
  have 5: "\<exists>score. transducer_forward_score1 simple_tp simple_pp simple_targets = Inr score"
    using score1_outcomes [of simple_tp simple_pp simple_targets]
    by (simp add: simple_targets_def)
  show ?thesis using 1 2 3 4 5 by blast
qed

theorem score1_named_errors_counterexample:
  "ncols narrow_tp \<noteq> ncols wide_pp \<and>
   transducer_forward_score1 narrow_tp wide_pp [0] = Inr (1 / 3) \<and>
   \<not> list_all (\<lambda>y. 0 \<le> y \<and> y < int (ncols simple_tp)) [- 1, 1, 7] \<and>
   (\<exists>score. transducer_forward_score1 simple_tp simple_pp [- 1, 1, 7] = Inr score)"
proof -
  have "transducer_forward_score1 narrow_tp wide_pp [0] = Inr (1 / 3)"
    by (simp add: transducer_forward_score1_def joint_probs_def broadcastable_def
        broadcast_dim_def prob_lattice_def lattice_sum_def broadcast_add_def softmax_def
        narrow_tp_def wide_pp_def score1_fill_def setitem2_def new_zeros_def new_full_def
        set2_def get2_def getitem3_def py_index_def)
  moreover have "\<exists>score. transducer_forward_score1 simple_tp simple_pp [- 1, 1, 7] = Inr score"
    using score1_succeeds [of simple_tp simple_pp "[- 1, 1, 7]"] wrapped_labels_readable
    by (simp add: broadcastable_def broadcast_dim_def)
  ultimately show ?thesis by simp
qed

text \<open>
  C6. For well-formed score matrices with the same \<open>K\<close>, both lattice constructions
  succeed, and entry \<open>(t, u, k)\<close> is the softmax over the \<open>K\<close> axis of
  \<open>transcription[t] + prediction[u]\<close> at \<open>k\<close> (probability domain), respectively
  its log-softmax (log domain). The lattice is a value computed from the two inputs alone;
  the loops only read it.
\<close>

theorem joint_lattice_entries:
  assumes "wf_tensor2 tp" "wf_tensor2 pp" "ncols pp = ncols tp"
    and "t < nrows tp" "u < nrows pp" "k < ncols tp"
  shows "joint_probs tp pp = Inr (prob_lattice tp pp) \<and>
     prob_lattice tp pp ! t ! u ! k =
       exp (vals tp ! t ! k + vals pp ! u ! k) /
       (\<Sum>j<ncols tp. exp (vals tp ! t ! j + vals pp ! u ! j)) \<and>
     joint_log tp pp = Inr (log_lattice tp pp) \<and>
     log_lattice tp pp ! t ! u ! k =
       (vals tp ! t ! k + vals pp ! u ! k) -
       ln (\<Sum>j<ncols tp. exp (vals tp ! t ! j + vals pp ! u ! j))"
proof -
  have l: "length (vals tp ! t) = ncols tp" "length (vals pp ! u) = ncols tp"
    using wf_tensor2_row(1) [OF assms(1) assms(4)] wf_tensor2_row(1) [OF assms(2) assms(5)] assms(3)
    by simp_all
  have s: "lattice_sum tp pp ! t ! u = map2 (+) (vals tp ! t) (vals pp ! u)"
    using lattice_sum_nth [OF assms(1-5)] .
  have n: "\<And>j. j < ncols tp \<Longrightarrow> map2 (+) (vals tp ! t) (vals pp ! u) ! j = vals tp ! t ! j + vals pp ! u ! j"
    using l by simp
  have len: "length (map2 (+) (vals tp ! t) (vals pp ! u)) = ncols tp" using l by simp
  have p: "prob_lattice tp pp ! t ! u ! k =
       exp (vals tp ! t ! k + vals pp ! u ! k) /
       (\<Sum>j<ncols tp. exp (vals tp ! t ! j + vals pp ! u ! j))"
    unfolding prob_lattice_nth [OF assms(1-5)] s
    using assms(6) n by (simp add: softmax_nth len del: length_map length_zip)
  have q: "log_lattice tp pp ! t ! u ! k =
       (vals tp ! t ! k + vals pp ! u ! k) -
       ln (\<Sum>j<ncols tp. exp (vals tp ! t ! j + vals pp ! u ! j))"
    unfolding log_lattice_nth [OF assms(1-5)] s
    using assms(6) n by (simp add: log_softmax_nth len del: length_map length_zip)
  show ?thesis using p q assms(3) by (simp add: joint_probs_def joint_log_def broadcastable_def)
qed

theorem joint_lattice_entries_witness:
  "prob_lattice simple_tp simple_pp ! 1 ! 1 ! 2 =
       exp (vals simple_tp ! 1 ! 2 + vals simple_pp ! 1 ! 2) /
       (\<Sum>j<4. exp (vals simple_tp ! 1 ! j + vals simple_pp ! 1 ! j)) \<and>
   log_lattice simple_tp simple_pp ! 1 ! 1 ! 2 =
       (vals simple_tp ! 1 ! 2 + vals simple_pp ! 1 ! 2) -
       ln (\<Sum>j<4. exp (vals simple_tp ! 1 ! j + vals simple_pp ! 1 ! j))"
  using joint_lattice_entries [of simple_tp simple_pp 1 1 2] simple_wf
  by simp

text \<open>
  C7. With a single column (\<open>U = 1\<close>), \<open>T \<ge> 1\<close> and equal vocabulary sizes
  \<open>K \<ge> 1\<close>, \<open>transducer_forward_score1\<close> returns the product over
  \<open>t = 0..T-1\<close> of the blank probability of the lattice at \<open>(t, 0)\<close>, whatever the
  targets are: no label is read.
\<close>

theorem score1_single_column:
  assumes "ncols pp = ncols tp" "0 < ncols tp" "0 < nrows tp" "nrows pp = 1"
  shows "transducer_forward_score1 tp pp targets =
     Inr (\<Prod>t<nrows tp. prob_lattice tp pp ! t ! 0 ! 0)"
proof -
  let ?b = "\<lambda>t u. prob_lattice tp pp ! t ! u ! 0"
  let ?al = "alpha_rec ?b (\<lambda>t u. prob_lattice tp pp ! t ! u ! nat (targets ! u))"
  have ok: "labels_ok (ncols tp) (nrows pp) targets"
    using assms(4) by (simp add: labels_ok_def)
  obtain n where n: "nrows tp = Suc n" using assms(3) by (cases "nrows tp") auto
  obtain a where a: "table_upto ?al (nrows tp) (nrows pp) (nrows tp) 0 a"
    "transducer_forward_score1 tp pp targets = Inr (a ! (nrows tp - 1) ! (nrows pp - 1) * ?b (nrows tp - 1) (nrows pp - 1))"
    using score1_result [OF assms(1,2,3) _ ok] assms(4) by auto
  have "a ! n ! 0 = ?al n 0"
    using a(1) n assms(4) unfolding table_upto_def by simp
  then have "a ! n ! 0 = (\<Prod>i<n. ?b i 0)" by (simp add: alpha_rec_col0)
  then show ?thesis using a(2) n assms(4) by simp
qed

theorem score1_single_column_witness:
  "transducer_forward_score1 simple_tp (simple_pp\<lparr>nrows := 1, vals := [[1, 0, 0, 0]]\<rparr>) [] =
     Inr (\<Prod>t<4. prob_lattice simple_tp (simple_pp\<lparr>nrows := 1, vals := [[1, 0, 0, 0]]\<rparr>) ! t ! 0 ! 0)"
  using score1_single_column [of "simple_pp\<lparr>nrows := 1, vals := [[1, 0, 0, 0]]\<rparr>" simple_tp "[]"]
  by simp



text \<open>
  C9, as amended. Take two target arrays of length \<open>U\<close> that differ at most in their
  last element \<open>targets[U-1]\<close>. \<open>transducer_forward_score1\<close> and
  \<open>transducer_forward_score3_transposed\<close> have the same outcome on both, whatever the
  last element is: they never read it. \<open>transducer_forward_score2\<close> and
  \<open>transducer_forward_score3\<close> have the same outcome on both when the last element lies
  in \<open>[0, K)\<close> in both arrays: \<open>gather\<close> checks every index, including the one
  whose gathered value \<open>from_bot[:-1]\<close> drops. The counterexample changes the last target
  from 2 to 9 with \<open>K = 4\<close>: the scan formulations return a score on the first array and
  fail inside \<open>gather\<close> on the second.
\<close>

theorem last_target_does_not_matter:
  assumes "length ta = nrows pp" "length tb = nrows pp" "butlast ta = butlast tb"
  shows "transducer_forward_score1 tp pp ta = transducer_forward_score1 tp pp tb \<and>
     transducer_forward_score3_transposed tp pp ta = transducer_forward_score3_transposed tp pp tb \<and>
     (in_vocab (broadcast_dim (ncols tp) (ncols pp)) (last ta) \<and>
      in_vocab (broadcast_dim (ncols tp) (ncols pp)) (last tb) \<longrightarrow>
        transducer_forward_score2 tp pp ta = transducer_forward_score2 tp pp tb \<and>
        transducer_forward_score3 tp pp ta = transducer_forward_score3 tp pp tb)"
proof -
  have len: "length ta = length tb" using assms by simp
  show ?thesis
    using score1_fill_last_target [OF assms] score3_transposed_fill_last_target [OF assms]
      score2_fill_last_target [OF len assms(3)] score3_fill_last_target [OF len assms(3)]
    by (simp add: transducer_forward_score1_def transducer_forward_score2_def
        transducer_forward_score3_def transducer_forward_score3_transposed_def)
qed

theorem last_target_does_not_matter_witness:
  "butlast [0, 1, 2] = butlast [0, 1, 3 :: int] \<and>
   (\<exists>score. transducer_forward_score1 simple_tp simple_pp [0, 1, 2] = Inr score \<and>
      transducer_forward_score1 simple_tp simple_pp [0, 1, 3] = Inr score) \<and>
   transducer_forward_score3_transposed simple_tp simple_pp [0, 1, 2] =
     transducer_forward_score3_transposed simple_tp simple_pp [0, 1, 3] \<and>
   (\<exists>score. transducer_forward_score2 simple_tp simple_pp [0, 1, 2] = Inr score \<and>
      transducer_forward_score2 simple_tp simple_pp [0, 1, 3] = Inr score) \<and>
   transducer_forward_score3 simple_tp simple_pp [0, 1, 2] =
     transducer_forward_score3 simple_tp simple_pp [0, 1, 3]"
proof -
  have ok: "targets_ok (ncols simple_tp) (nrows simple_pp) [0, 1, 2]"
    by (simp add: targets_ok_def)
  have 1: "transducer_forward_score1 simple_tp simple_pp [0, 1, 2] =
      Inr (forward_mass simple_tp simple_pp [0, 1, 2])"
    by (rule score1_mass [OF _ _ _ ok]) simp_all
  have 2: "transducer_forward_score2 simple_tp simple_pp [0, 1, 2] =
      Inr (forward_mass simple_tp simple_pp [0, 1, 2])"
    by (rule score2_mass [OF simple_wf _ _ _ ok]) simp_all
  have e: "transducer_forward_score1 simple_tp simple_pp [0, 1, 2] =
        transducer_forward_score1 simple_tp simple_pp [0, 1, 3]"
      "transducer_forward_score3_transposed simple_tp simple_pp [0, 1, 2] =
        transducer_forward_score3_transposed simple_tp simple_pp [0, 1, 3]"
      "transducer_forward_score2 simple_tp simple_pp [0, 1, 2] =
        transducer_forward_score2 simple_tp simple_pp [0, 1, 3]"
      "transducer_forward_score3 simple_tp simple_pp [0, 1, 2] =
        transducer_forward_score3 simple_tp simple_pp [0, 1, 3]"
    using last_target_does_not_matter [of "[0, 1, 2]" simple_pp "[0, 1, 3]" simple_tp]
    by (simp_all add: in_vocab_def broadcast_dim_def)
  have a: "transducer_forward_score1 simple_tp simple_pp [0, 1, 3] =
      Inr (forward_mass simple_tp simple_pp [0, 1, 2])"
    unfolding e(1) [symmetric] by (rule 1)
  have b: "transducer_forward_score2 simple_tp simple_pp [0, 1, 3] =
      Inr (forward_mass simple_tp simple_pp [0, 1, 2])"
    unfolding e(3) [symmetric] by (rule 2)
  have bl: "butlast [0, 1, 2] = butlast [0, 1, 3 :: int]" by simp
  show ?thesis using 1 a 2 b e(2) e(4) bl by blast
qed

theorem last_target_gather_counterexample:
  "length [0, 1, 2 :: int] = nrows simple_pp \<and> length [0, 1, 9 :: int] = nrows simple_pp \<and>
   butlast [0, 1, 2] = butlast [0, 1, 9 :: int] \<and>
   (\<exists>score. transducer_forward_score2 simple_tp simple_pp [0, 1, 2] = Inr score) \<and>
   transducer_forward_score2 simple_tp simple_pp [0, 1, 9] = Inl GatherError \<and>
   (\<exists>score. transducer_forward_score3 simple_tp simple_pp [0, 1, 2] = Inr score) \<and>
   transducer_forward_score3 simple_tp simple_pp [0, 1, 9] = Inl GatherError"
proof -
  have ok: "targets_ok (ncols simple_tp) (nrows simple_pp) [0, 1, 2]"
    by (simp add: targets_ok_def)
  have 2: "transducer_forward_score2 simple_tp simple_pp [0, 1, 2] =
      Inr (forward_mass simple_tp simple_pp [0, 1, 2])"
    by (rule score2_mass [OF simple_wf _ _ _ ok]) simp_all
  have 3: "\<exists>l. transducer_forward_score3 simple_tp simple_pp [0, 1, 2] = Inr l \<and>
      exp l = forward_mass simple_tp simple_pp [0, 1, 2]"
    by (rule score3_mass [OF simple_wf _ _ _ ok]) simp_all
  have b2: "transducer_forward_score2 simple_tp simple_pp [0, 1, 9] = Inl GatherError"
    by (rule score2_bad_gather) (simp_all add: broadcastable_def broadcast_dim_def)
  have b3: "transducer_forward_score3 simple_tp simple_pp [0, 1, 9] = Inl GatherError"
    by (rule score3_bad_gather) (simp_all add: broadcastable_def broadcast_dim_def)
  show ?thesis using 2 3 b2 b3 by auto
qed

text \<open>
  C10. The claim is that every entry of the alpha table of
  \<open>transducer_forward_score1\<close>, and the returned score, lie in \<open>[0, 1]\<close> for
  in-range targets. The code breaks it on the layout it documents: with \<open>K = 2\<close>,
  blank probability 4/5 in every cell and targets \<open>[0, 1]\<close> (the blank prefix and one
  valid label), the label step out of column 0 reads \<open>targets[0]\<close>, the blank, so both
  transitions out of a cell carry probability 4/5; the table has \<open>alpha[1,1] = 32/25\<close>
  and the function returns 128/125.
\<close>

theorem score1_exceeds_one_on_blank_prefix:
  "wf_tensor2 blank_tp \<and> wf_tensor2 blank_pp \<and> ncols blank_pp = ncols blank_tp \<and>
   targets_ok (ncols blank_tp) (nrows blank_pp) [0, 1] \<and>
   (\<exists>alpha. transducer_forward_alpha1 blank_tp blank_pp [0, 1] = Inr alpha \<and>
      alpha ! 1 ! 1 = 32 / 25 \<and> \<not> alpha ! 1 ! 1 \<le> 1) \<and>
   transducer_forward_score1 blank_tp blank_pp [0, 1] = Inr (128 / 125) \<and>
   \<not> (128 / 125 \<le> (1::real))"
proof -
  obtain a where a: "transducer_forward_alpha1 blank_tp blank_pp [0, 1] = Inr a"
    "a ! 1 ! 1 = 32 / 25" "transducer_forward_score1 blank_tp blank_pp [0, 1] = Inr (128 / 125)"
    using blank_prefix_table by blast
  have "wf_tensor2 blank_tp" "wf_tensor2 blank_pp"
    by (simp_all add: wf_tensor2_def blank_tp_def blank_pp_def)
  moreover have "targets_ok (ncols blank_tp) (nrows blank_pp) [0, 1]"
    by (simp add: targets_ok_def)
  moreover have "\<not> a ! 1 ! 1 \<le> 1" unfolding a(2) by simp
  ultimately show ?thesis using a by auto
qed

end
